theory Spec2Isabelle
  imports Complex_Main "HOL-Library.AList"
begin

section \<open>The connection layer of the Rio app server\<close>

text \<open>
  A shallow embedding of \<^verbatim>\<open>rio/app_server/fastapi_server.py\<close>: the routes the server
  registers, the weakly hosted assets, the expiry reaper, the upload endpoint, the
  shutdown sequence and the websocket handler with its two token maps.

  Python objects that are shared and mutated (sessions, futures) live in an explicit
  store indexed by their identity. A Python \<^verbatim>\<open>dict\<close> is an association list in
  insertion order: \<^verbatim>\<open>d[k] = v\<close> is \<^const>\<open>AList.update\<close>, \<^verbatim>\<open>d.pop(k)\<close> is
  \<^const>\<open>map_of\<close> followed by \<^const>\<open>AList.delete\<close>, \<^verbatim>\<open>d.values()\<close> is
  \<open>map snd\<close>. Calls into objects whose code is outside this file are recorded as
  effects, in the order the code makes them.
\<close>

subsection \<open>Data\<close>

type_synonym token = string
type_synonym sid = nat \<comment> \<open>identity of a \<^verbatim>\<open>rio.Session\<close> object\<close>
type_synonym fid = nat \<comment> \<open>identity of an \<^verbatim>\<open>asyncio.Future\<close> object\<close>
type_synonym wsid = nat \<comment> \<open>identity of a \<^verbatim>\<open>fastapi.WebSocket\<close> object\<close>

text \<open>A \<^verbatim>\<open>fastapi.Request\<close>: the fields the server reads from it.\<close>

record request =
  request_url :: string
  request_client :: "(string \<times> nat) option"

text \<open>
  The fields of a session that this file reads or writes. \<open>session_token\<close> is the
  token captured by the \<^verbatim>\<open>receive_message\<close> closure that
  \<^verbatim>\<open>_create_session_from_websocket\<close> hands to the session.
  \<^verbatim>\<open>time.monotonic()\<close> is a float; the model takes timestamps in the reals.
\<close>

record session =
  websocket :: "wsid option"
  is_active_event :: bool
  last_interaction_timestamp :: real
  session_token :: token

datatype asset =
  BytesAsset string string \<comment> \<open>data, media type\<close>
| PathAsset string string \<comment> \<open>path, media type\<close>

record file_info =
  file_name :: string
  size_in_bytes :: int
  media_type :: string
  contents :: string

text \<open>
  An \<^verbatim>\<open>asyncio.Future\<close>: pending, done with a result, or cancelled. The future of an
  upload is cancelled by asyncio when the task that awaits it in \<^verbatim>\<open>file_chooser\<close> is
  cancelled.
\<close>

datatype future = Pending | Resolved "file_info list" | Cancelled

record server =
  can_create_new_sessions :: bool
  latent_session_tokens :: "(token \<times> request) list"
  active_session_tokens :: "(token \<times> sid) list"
  assets :: "(string \<times> asset) list"
  pending_file_uploads :: "(token \<times> fid) list"
  session_store :: "sid \<Rightarrow> session"
  next_sid :: sid
  future_store :: "fid \<Rightarrow> future"
  next_fid :: fid

datatype exn =
  HTTPException nat string
| InvalidStateError
| TimeoutError
| AssertionError
| CancelledError
| WebSocketDisconnect int
| NavigationFailed
| SystemExit
| KeyboardInterrupt
| OtherError string

text \<open>
  The server as \<^verbatim>\<open>FastapiServer.__init__\<close> leaves it: the gate is set, every
  dictionary is empty, no object has been allocated.
\<close>

definition unallocated_session :: session where
  "unallocated_session =
     \<lparr>websocket = None, is_active_event = False, last_interaction_timestamp = 0,
      session_token = []\<rparr>"

definition init_server :: server where
  "init_server =
     \<lparr>can_create_new_sessions = True,
      latent_session_tokens = [],
      active_session_tokens = [],
      assets = [],
      pending_file_uploads = [],
      session_store = (\<lambda>_. unallocated_session),
      next_sid = 0,
      future_store = (\<lambda>_. Pending),
      next_fid = 0\<rparr>"

subsection \<open>Routes\<close>

datatype http_method = GET | HEAD | POST | PUT | DELETE

datatype scope = Http http_method | Websocket

datatype handler =
  ServeRobots | ServeSitemap | ServeFavicon | ServeFrontendAsset | ServeSpecialAsset
| ServeHostedAsset | ServeUserAsset | ServeTempAsset | ServeIcon | ServeFileUpload
| ServeWebsocket | ServeIndex

text \<open>
  A route path of this server is a literal prefix followed by at most one parameter at
  its end: none, \<^verbatim>\<open>{x}\<close> (Starlette's \<^verbatim>\<open>str\<close> convertor, the regular expression
  \<^verbatim>\<open>[^/]+\<close>) or \<^verbatim>\<open>{x:path}\<close> (the \<^verbatim>\<open>path\<close> convertor, \<^verbatim>\<open>.*\<close>).
\<close>

datatype param = NoParam | StrParam | PathParam

record route =
  route_scope :: "http_method list option" \<comment> \<open>\<open>None\<close>: a websocket route\<close>
  route_prefix :: string
  route_param :: param
  route_handler :: handler

fun strip_prefix :: "string \<Rightarrow> string \<Rightarrow> string option" where
  "strip_prefix [] s = Some s"
| "strip_prefix (p # ps) [] = None"
| "strip_prefix (p # ps) (c # cs) = (if p = c then strip_prefix ps cs else None)"

text \<open>
  Starlette compiles a path to \<^verbatim>\<open>^prefix(?P<x>regex)$\<close> and calls \<^verbatim>\<open>match\<close>.
  In Python \<^verbatim>\<open>.\<close> does not match a newline, and \<^verbatim>\<open>$\<close> matches at the end or
  before a newline that ends the string.
\<close>

definition newline :: char where
  "newline = CHR 0x0A"

definition param_matches :: "param \<Rightarrow> string \<Rightarrow> bool" where
  "param_matches p r =
     (case p of
        NoParam \<Rightarrow> r = [] \<or> r = [newline]
      | StrParam \<Rightarrow> r \<noteq> [] \<and> CHR ''/'' \<notin> set r
      | PathParam \<Rightarrow>
          (let rest = dropWhile (\<lambda>c. c \<noteq> newline) r in rest = [] \<or> rest = [newline]))"

text \<open>
  The value of the parameter is what the group of the regular expression matched: for
  \<^verbatim>\<open>.*\<close> the remainder up to a newline, for \<^verbatim>\<open>[^/]+\<close> the whole remainder.
\<close>

definition param_of :: "param \<Rightarrow> string \<Rightarrow> string" where
  "param_of p r =
     (case p of
        NoParam \<Rightarrow> []
      | StrParam \<Rightarrow> r
      | PathParam \<Rightarrow> takeWhile (\<lambda>c. c \<noteq> newline) r)"

datatype match = MatchNone | MatchPartial | MatchFull string

definition route_matches :: "route \<Rightarrow> scope \<Rightarrow> string \<Rightarrow> match" where
  "route_matches r sc path =
     (case (route_scope r, sc) of
        (None, Websocket) \<Rightarrow>
          (case strip_prefix (route_prefix r) path of
             None \<Rightarrow> MatchNone
           | Some rest \<Rightarrow>
               if param_matches (route_param r) rest
               then MatchFull (param_of (route_param r) rest)
               else MatchNone)
      | (Some ms, Http m) \<Rightarrow>
          (case strip_prefix (route_prefix r) path of
             None \<Rightarrow> MatchNone
           | Some rest \<Rightarrow>
               if param_matches (route_param r) rest
               then (if m \<in> set ms then MatchFull (param_of (route_param r) rest)
                     else MatchPartial)
               else MatchNone)
      | _ \<Rightarrow> MatchNone)"

datatype dispatched = Routed handler string | MethodNotAllowed | NotFound

text \<open>
  Starlette's router: the first route that matches in full handles the request; failing
  that the first partial match (right path, wrong method) answers 405; failing that 404.
\<close>

fun dispatch_from :: "route list \<Rightarrow> bool \<Rightarrow> scope \<Rightarrow> string \<Rightarrow> dispatched" where
  "dispatch_from [] partial sc path = (if partial then MethodNotAllowed else NotFound)"
| "dispatch_from (r # rs) partial sc path =
     (case route_matches r sc path of
        MatchFull v \<Rightarrow> Routed (route_handler r) v
      | MatchPartial \<Rightarrow> dispatch_from rs True sc path
      | MatchNone \<Rightarrow> dispatch_from rs partial sc path)"

definition api_route :: "string \<Rightarrow> param \<Rightarrow> handler \<Rightarrow> http_method list \<Rightarrow> route" where
  "api_route p k h ms =
     \<lparr>route_scope = Some ms, route_prefix = p, route_param = k, route_handler = h\<rparr>"

definition api_websocket_route :: "string \<Rightarrow> handler \<Rightarrow> route" where
  "api_websocket_route p h =
     \<lparr>route_scope = None, route_prefix = p, route_param = NoParam, route_handler = h\<rparr>"

text \<open>
  The routes of \<^verbatim>\<open>FastapiServer.__init__\<close>, in the order it adds them. The frontend
  asset route names no methods; FastAPI then takes GET.
\<close>

definition routes :: "route list" where
  "routes =
     [api_route ''/robots.txt'' NoParam ServeRobots [GET],
      api_route ''/rio/sitemap'' NoParam ServeSitemap [GET],
      api_route ''/rio/favicon.png'' NoParam ServeFavicon [GET],
      api_route ''/rio/frontend/assets/'' PathParam ServeFrontendAsset [GET],
      api_route ''/rio/asset/special/'' PathParam ServeSpecialAsset [GET],
      api_route ''/rio/asset/hosted/'' PathParam ServeHostedAsset [GET],
      api_route ''/rio/asset/user/'' PathParam ServeUserAsset [GET],
      api_route ''/rio/asset/temp/'' PathParam ServeTempAsset [GET],
      api_route ''/rio/icon/'' PathParam ServeIcon [GET],
      api_route ''/rio/upload/'' StrParam ServeFileUpload [PUT],
      api_websocket_route ''/rio/ws'' ServeWebsocket,
      api_route ''/'' PathParam ServeIndex [GET]]"

definition dispatch :: "scope \<Rightarrow> string \<Rightarrow> dispatched" where
  "dispatch sc path = dispatch_from routes False sc path"

subsection \<open>Weakly hosted assets\<close>

text \<open>
  \<^verbatim>\<open>weakly_host_asset\<close> stores the asset under its secret id and returns the URL
  fragment. The dictionary holds its values weakly; an asset whose owner lets go of it
  leaves the dictionary, which is \<open>release_asset\<close>.
\<close>

definition weakly_host_asset :: "server \<Rightarrow> string \<Rightarrow> asset \<Rightarrow> server \<times> string" where
  "weakly_host_asset srv secret_id a =
     (srv\<lparr>assets := AList.update secret_id a (assets srv)\<rparr>,
      ''/rio/assets/temp/'' @ secret_id)"

definition release_asset :: "server \<Rightarrow> string \<Rightarrow> server" where
  "release_asset srv secret_id = srv\<lparr>assets := AList.delete secret_id (assets srv)\<rparr>"

datatype response =
  Response nat string \<comment> \<open>status code, content\<close>
| RangeResponse string \<comment> \<open>a file served by \<^verbatim>\<open>byte_serving\<close>\<close>

definition serve_temp_asset :: "server \<Rightarrow> string \<Rightarrow> response" where
  "serve_temp_asset srv asset_id =
     (case map_of (assets srv) asset_id of
        None \<Rightarrow> Response 404 []
      | Some (BytesAsset d mt) \<Rightarrow> Response 200 d
      | Some (PathAsset p mt) \<Rightarrow> RangeResponse p)"

subsection \<open>The expiry reaper\<close>

definition LOOP_INTERVAL :: real where
  "LOOP_INTERVAL = 60 * 15"

definition SESSION_LIFETIME :: real where
  "SESSION_LIFETIME = 60 * 60"

datatype effect =
  Sleep real
| SessionClose sid \<comment> \<open>\<^verbatim>\<open>sess.close()\<close>\<close>
| SessionCloseAwaited sid \<comment> \<open>\<^verbatim>\<open>await sess._close(close_remote_session=True)\<close>\<close>
| SessionServe sid
| CreateTaskRefresh sid \<comment> \<open>\<^verbatim>\<open>asyncio.create_task(sess._refresh())\<close>\<close>
| CreateTaskSendAllComponents sid
    \<comment> \<open>\<^verbatim>\<open>asyncio.create_task(sess._send_all_components_on_reconnect())\<close>\<close>
| WebsocketAccept wsid
| WebsocketClose wsid nat string
| PrintException exn
| PrintLine string
| LogDebug string
| LogClosingSessions nat
    \<comment> \<open>the debug line \<^verbatim>\<open>App server shutting down; closing n active session(s)\<close>\<close>
| CallOnAppClose

text \<open>
  One pass of \<^verbatim>\<open>_periodically_clean_up_expired_sessions\<close>: the sessions on which
  \<^verbatim>\<open>close()\<close> is called, in the order of \<^verbatim>\<open>_active_session_tokens.values()\<close>.
\<close>

definition expired :: "real \<Rightarrow> session \<Rightarrow> bool" where
  "expired cutoff sess = (last_interaction_timestamp sess < cutoff)"

definition reaper_pass :: "server \<Rightarrow> real \<Rightarrow> sid list" where
  "reaper_pass srv now =
     (let cutoff = now - SESSION_LIFETIME
      in filter (\<lambda>s. expired cutoff (session_store srv s))
           (map snd (active_session_tokens srv)))"

text \<open>
  The loop. Each element of the list is what one wake-up finds: the server behind the
  weak reference (\<open>None\<close> once it is gone, and the loop returns) and the clock.
\<close>

fun periodically_clean_up_expired_sessions :: "(server option \<times> real) list \<Rightarrow> effect list" where
  "periodically_clean_up_expired_sessions [] = []"
| "periodically_clean_up_expired_sessions ((None, now) # rest) = [Sleep LOOP_INTERVAL]"
| "periodically_clean_up_expired_sessions ((Some srv, now) # rest) =
     Sleep LOOP_INTERVAL # map SessionClose (reaper_pass srv now)
       @ periodically_clean_up_expired_sessions rest"

subsection \<open>File uploads\<close>

text \<open>
  A Python \<^verbatim>\<open>str\<close> as the list of its code points, and a literal of 8-bit characters
  as such a string.
\<close>

type_synonym unicode = "nat list"

definition str :: "string \<Rightarrow> unicode" where
  "str s = map of_char s"

text \<open>
  What \<^verbatim>\<open>int()\<close> takes from the interpreter: the decimal value that the Unicode
  database gives a code point (\<^verbatim>\<open>Py_UNICODE_TODECIMAL\<close>, \<open>None\<close> for a code point that
  is no decimal digit), and \<^verbatim>\<open>sys.get_int_max_str_digits()\<close>, which is 4300 unless the
  interpreter is set up otherwise and 0 when there is no limit.
\<close>

record python =
  unicode_decimal :: "nat \<Rightarrow> nat option"
  int_max_str_digits :: nat

text \<open>
  \<^verbatim>\<open>int(s)\<close> on a \<^verbatim>\<open>str\<close>, base 10, as CPython computes it, \<open>None\<close> for
  \<^verbatim>\<open>ValueError\<close>. A string that is not all ASCII is first rewritten
  (\<^verbatim>\<open>_PyUnicode_TransformDecimalAndSpaceToASCII\<close>): a code point below 127 stays, white
  space becomes a blank, a decimal digit its ASCII digit, and anything else ends the
  string with a question mark. \<^verbatim>\<open>PyLong_FromString\<close> then skips \<^verbatim>\<open>Py_ISSPACE\<close>
  characters (tab to carriage return, and the blank), takes a sign, takes the digits,
  where one underscore may stand between two digits, skips white space again and must
  be at the end. More digits than the limit is an error when there are more than 640.
\<close>

definition Py_ISSPACE :: "nat \<Rightarrow> bool" where
  "Py_ISSPACE c = (c = 32 \<or> (9 \<le> c \<and> c \<le> 13))"

definition unicode_isspace :: "nat \<Rightarrow> bool" where
  "unicode_isspace c =
     (c = 0x85 \<or> c = 0xA0 \<or> c = 0x1680 \<or> (0x2000 \<le> c \<and> c \<le> 0x200A)
      \<or> c = 0x2028 \<or> c = 0x2029 \<or> c = 0x202F \<or> c = 0x205F \<or> c = 0x3000)"

fun transform_decimal_and_space_to_ascii :: "(nat \<Rightarrow> nat option) \<Rightarrow> unicode \<Rightarrow> unicode" where
  "transform_decimal_and_space_to_ascii todecimal [] = []"
| "transform_decimal_and_space_to_ascii todecimal (ch # rest) =
     (if ch < 127 then ch # transform_decimal_and_space_to_ascii todecimal rest
      else if unicode_isspace ch then 32 # transform_decimal_and_space_to_ascii todecimal rest
      else (case todecimal ch of
              None \<Rightarrow> [63]
            | Some decimal \<Rightarrow>
                (48 + decimal) # transform_decimal_and_space_to_ascii todecimal rest))"

definition is_digit :: "nat \<Rightarrow> bool" where
  "is_digit c = (48 \<le> c \<and> c \<le> 57)"

definition digit_of :: "nat \<Rightarrow> int" where
  "digit_of c = int c - 48"

fun digits_tail :: "int \<Rightarrow> unicode \<Rightarrow> int option" where
  "digits_tail acc [] = Some acc"
| "digits_tail acc [c] = (if is_digit c then Some (acc * 10 + digit_of c) else None)"
| "digits_tail acc (c # d # cs) =
     (if is_digit c then digits_tail (acc * 10 + digit_of c) (d # cs)
      else if c = 95 \<and> is_digit d then digits_tail (acc * 10 + digit_of d) cs
      else None)"

definition digits :: "unicode \<Rightarrow> int option" where
  "digits s =
     (case s of
        [] \<Rightarrow> None
      | c # cs \<Rightarrow> if is_digit c then digits_tail (digit_of c) cs else None)"

definition long_from_digits :: "nat \<Rightarrow> bool \<Rightarrow> unicode \<Rightarrow> int option" where
  "long_from_digits max_str_digits negative s =
     (let body = takeWhile (\<lambda>c. is_digit c \<or> c = 95) s;
          rest = dropWhile (\<lambda>c. is_digit c \<or> c = 95) s;
          n = length (filter is_digit body)
      in if \<not> list_all Py_ISSPACE rest then None
         else if 640 < n \<and> 0 < max_str_digits \<and> max_str_digits < n then None
         else map_option (\<lambda>v. if negative then - v else v) (digits body))"

definition PyLong_FromString :: "nat \<Rightarrow> unicode \<Rightarrow> int option" where
  "PyLong_FromString max_str_digits buffer =
     (case dropWhile Py_ISSPACE buffer of
        [] \<Rightarrow> None
      | c # cs \<Rightarrow>
          if c = 45 then long_from_digits max_str_digits True cs
          else if c = 43 then long_from_digits max_str_digits False cs
          else long_from_digits max_str_digits False (c # cs))"

definition py_int :: "python \<Rightarrow> unicode \<Rightarrow> int option" where
  "py_int py s =
     PyLong_FromString (int_max_str_digits py)
       (if list_all (\<lambda>c. c < 128) s then s
        else transform_decimal_and_space_to_ascii (unicode_decimal py) s)"

text \<open>
  An interpreter for examples: the default limit of 4300 digits and, of the decimal
  digits beyond ASCII, the Arabic-Indic ones (U+0660 to U+0669).
\<close>

definition example_python :: python where
  "example_python =
     \<lparr>unicode_decimal = (\<lambda>c. if 0x660 \<le> c \<and> c \<le> 0x669 then Some (c - 0x660) else None),
      int_max_str_digits = 4300\<rparr>"

text \<open>
  \<^verbatim>\<open>asyncio.Future.set_result\<close> raises \<^verbatim>\<open>InvalidStateError\<close> on a future that is
  not pending.
\<close>

definition set_result :: "future \<Rightarrow> file_info list \<Rightarrow> exn + future" where
  "set_result f v = (case f of Pending \<Rightarrow> Inr (Resolved v) | _ \<Rightarrow> Inl InvalidStateError)"

text \<open>
  The start of \<^verbatim>\<open>file_chooser\<close>: a new future is registered under the upload id.
\<close>

definition file_chooser_register :: "server \<Rightarrow> token \<Rightarrow> server" where
  "file_chooser_register srv upload_id =
     srv\<lparr>future_store := (future_store srv)(next_fid srv := Pending),
         next_fid := Suc (next_fid srv),
         pending_file_uploads := AList.update upload_id (next_fid srv) (pending_file_uploads srv)\<rparr>"


text \<open>
  The \<^verbatim>\<open>TimerDict\<close> drops an entry 15 minutes after it was stored; to the code of this
  file an expired entry is an absent one.
\<close>

definition expire_upload :: "server \<Rightarrow> token \<Rightarrow> server" where
  "expire_upload srv upload_token =
     srv\<lparr>pending_file_uploads := AList.delete upload_token (pending_file_uploads srv)\<rparr>"

text \<open>The loop that parses the sizes, with the list it appends to.\<close>

fun parse_file_sizes :: "python \<Rightarrow> int list \<Rightarrow> unicode list \<Rightarrow> exn + int list" where
  "parse_file_sizes py parsed_file_sizes [] = Inr parsed_file_sizes"
| "parse_file_sizes py parsed_file_sizes (file_size # rest) =
     (case py_int py file_size of
        None \<Rightarrow> Inl (HTTPException 422 ''Invalid file size.'')
      | Some parsed \<Rightarrow>
          if parsed < 0 then Inl (HTTPException 422 ''Invalid file size.'')
          else parse_file_sizes py (parsed_file_sizes @ [parsed]) rest)"

definition file_infos ::
  "string list \<Rightarrow> string list \<Rightarrow> int list \<Rightarrow> string list \<Rightarrow> file_info list" where
  "file_infos file_names file_types parsed_file_sizes file_streams =
     map (\<lambda>ii. \<lparr>file_name = file_names ! ii,
                size_in_bytes = parsed_file_sizes ! ii,
                media_type = file_types ! ii,
                contents = file_streams ! ii\<rparr>)
       [0 ..< length file_names]"

text \<open>
  \<^verbatim>\<open>_serve_file_upload\<close>, run by the interpreter \<open>py\<close>. An upload stream is given by
  the bytes its \<^verbatim>\<open>read()\<close> returns. The result is the server afterwards and either the
  exception that leaves the handler or the response.
\<close>

definition serve_file_upload ::
  "python \<Rightarrow> server \<Rightarrow> token \<Rightarrow> string list \<Rightarrow> string list \<Rightarrow> unicode list \<Rightarrow> string list
     \<Rightarrow> server \<times> (exn + response)" where
  "serve_file_upload py srv upload_token file_names file_types file_sizes file_streams =
     (case map_of (pending_file_uploads srv) upload_token of
        None \<Rightarrow> (srv, Inl (HTTPException 400 ''Invalid upload token.''))
      | Some fut \<Rightarrow>
          (let srv1 = srv\<lparr>pending_file_uploads :=
                            AList.delete upload_token (pending_file_uploads srv)\<rparr>;
               n_names = length file_names;
               n_types = length file_types;
               n_sizes = length file_sizes;
               n_streams = length file_streams
           in if n_names \<noteq> n_types \<or> n_names \<noteq> n_sizes \<or> n_names \<noteq> n_streams
              then (srv1, Inl (HTTPException 422
                ''Inconsistent number of files between the different message parts.''))
              else
                (case parse_file_sizes py [] file_sizes of
                   Inl e \<Rightarrow> (srv1, Inl e)
                 | Inr parsed_file_sizes \<Rightarrow>
                     (case set_result (future_store srv1 fut)
                             (file_infos file_names file_types parsed_file_sizes file_streams) of
                        Inl e \<Rightarrow> (srv1, Inl e)
                      | Inr done \<Rightarrow>
                          (srv1\<lparr>future_store := (future_store srv1)(fut := done)\<rparr>,
                           Inr (Response 200 []))))))"

text \<open>A sequence of upload requests, one after the other.\<close>

type_synonym upload_request = "token \<times> string list \<times> string list \<times> unicode list \<times> string list"

fun serve_file_uploads :: "python \<Rightarrow> server \<Rightarrow> upload_request list \<Rightarrow> (exn + response) list" where
  "serve_file_uploads py srv [] = []"
| "serve_file_uploads py srv ((t, ns, ts, zs, fs) # rest) =
     snd (serve_file_upload py srv t ns ts zs fs)
       # serve_file_uploads py (fst (serve_file_upload py srv t ns ts zs fs)) rest"

subsection \<open>Shutdown\<close>

text \<open>
  What a user-supplied hook does when it is called: it returns, it raises an
  \<^verbatim>\<open>Exception\<close>, or it raises a \<^verbatim>\<open>BaseException\<close> that is none.
\<close>

datatype hook_result = HookReturns | HookRaisesException string | HookRaisesBaseException string

text \<open>
  \<^verbatim>\<open>_call_on_app_close\<close>; the argument is \<open>None\<close> when the app has no such hook. The
  result is the effects and the exception that leaves the function, if any.
\<close>

definition call_on_app_close :: "hook_result option \<Rightarrow> effect list \<times> exn option" where
  "call_on_app_close on_app_close =
     (case on_app_close of
        None \<Rightarrow> ([LogDebug ''Calling `on_app_close`''], None)
      | Some HookReturns \<Rightarrow> ([LogDebug ''Calling `on_app_close`'', CallOnAppClose], None)
      | Some (HookRaisesException e) \<Rightarrow>
          ([LogDebug ''Calling `on_app_close`'', CallOnAppClose,
            PrintLine ''Exception in `_on_app_close` event handler:'',
            PrintException (OtherError e)], None)
      | Some (HookRaisesBaseException e) \<Rightarrow>
          ([LogDebug ''Calling `on_app_close`'', CallOnAppClose], Some (OtherError e)))"

text \<open>
  The \<^verbatim>\<open>finally\<close> block of \<^verbatim>\<open>_lifespan\<close>. The generator expression makes one
  \<^verbatim>\<open>_close\<close> coroutine per value of the active map, and \<^verbatim>\<open>gather\<close> turns each into
  a task, started in that order. \<open>close_result\<close> says what the \<^verbatim>\<open>_close\<close> of a session
  raises, if anything. An exception that a task raises is kept as the result of the
  task, and \<^verbatim>\<open>gather(..., return_exceptions=True)\<close> returns the results in order; but
  \<^verbatim>\<open>SystemExit\<close> and \<^verbatim>\<open>KeyboardInterrupt\<close> are raised again by the task, out of the
  event loop, and what waits on the loop does not go on. The model runs each teardown
  in one piece, one after the other; the result of \<open>gather\<close> is the teardowns that ran
  and either the exception that stopped the loop or the list of results.
\<close>

definition stops_loop :: "exn \<Rightarrow> bool" where
  "stops_loop e = (e = SystemExit \<or> e = KeyboardInterrupt)"

fun gather :: "(sid \<Rightarrow> exn option) \<Rightarrow> sid list \<Rightarrow> sid list \<times> (exn + exn option list)" where
  "gather close_result [] = ([], Inr [])"
| "gather close_result (sess # rest) =
     (case close_result sess of
        Some e \<Rightarrow>
          if stops_loop e then ([sess], Inl e)
          else (case gather close_result rest of
                  (started, Inl e') \<Rightarrow> (sess # started, Inl e')
                | (started, Inr results) \<Rightarrow> (sess # started, Inr (Some e # results)))
      | None \<Rightarrow>
          (case gather close_result rest of
             (started, Inl e') \<Rightarrow> (sess # started, Inl e')
           | (started, Inr results) \<Rightarrow> (sess # started, Inr (None # results))))"

fun print_exceptions :: "exn option list \<Rightarrow> effect list" where
  "print_exceptions [] = []"
| "print_exceptions (None # results) = print_exceptions results"
| "print_exceptions (Some e # results) = PrintException e # print_exceptions results"

definition lifespan_shutdown ::
  "server \<Rightarrow> (sid \<Rightarrow> exn option) \<Rightarrow> hook_result option \<Rightarrow> effect list \<times> exn option" where
  "lifespan_shutdown srv close_result on_app_close =
     (case gather close_result (map snd (active_session_tokens srv)) of
        (started, Inl e) \<Rightarrow>
          (LogClosingSessions (length (active_session_tokens srv))
             # map SessionCloseAwaited started,
           Some e)
      | (started, Inr results) \<Rightarrow>
          (LogClosingSessions (length (active_session_tokens srv))
             # map SessionCloseAwaited started
             @ print_exceptions results
             @ fst (call_on_app_close on_app_close),
           snd (call_on_app_close on_app_close)))"

subsection \<open>The index page and the websocket handler\<close>

text \<open>
  \<^verbatim>\<open>_serve_index\<close>, as far as it touches the server: for a crawler a session is created
  and closed at once and no token is stored; otherwise the token that
  \<^verbatim>\<open>secrets.token_urlsafe()\<close> returned is stored with the request in the latent map.
  \<open>crawl\<close> is \<open>None\<close> for a client that is no crawler, else what
  \<^verbatim>\<open>create_session\<close> did: it failed to navigate, or the session is on some page.
\<close>

datatype crawl = CrawlNavigationFailed | CrawlActivePage string

datatype index_result = IndexHtml token | IndexRedirect string | IndexRaised exn

definition serve_index ::
  "server \<Rightarrow> crawl option \<Rightarrow> token \<Rightarrow> request \<Rightarrow> server \<times> index_result" where
  "serve_index srv crawl fresh_token req =
     (case crawl of
        Some c \<Rightarrow>
          if request_client req = None then (srv, IndexRaised AssertionError)
          else
            (case c of
               CrawlNavigationFailed \<Rightarrow>
                 (srv, IndexRaised (HTTPException 500
                    (''Navigation to initial page `'' @ request_url req @ ''` has failed.'')))
             | CrawlActivePage active_page_url \<Rightarrow>
                 if active_page_url \<noteq> request_url req
                 then (srv, IndexRedirect active_page_url)
                 else (srv, IndexHtml ''<crawler>''))
      | None \<Rightarrow>
          (srv\<lparr>latent_session_tokens :=
                 AList.update fresh_token req (latent_session_tokens srv)\<rparr>,
           IndexHtml fresh_token))"

text \<open>
  \<^verbatim>\<open>temporarily_disable_new_session_creation\<close> clears the event on entry and sets it on
  exit.
\<close>

definition disable_new_session_creation :: "server \<Rightarrow> server" where
  "disable_new_session_creation srv = srv\<lparr>can_create_new_sessions := False\<rparr>"

definition enable_new_session_creation :: "server \<Rightarrow> server" where
  "enable_new_session_creation srv = srv\<lparr>can_create_new_sessions := True\<rparr>"

text \<open>
  \<^verbatim>\<open>_serve_websocket\<close> is a coroutine; the model runs it from one \<^verbatim>\<open>await\<close> to the
  next. A phase names the \<^verbatim>\<open>await\<close> at which the coroutine is suspended, with the local
  variables it holds there:
  \<^item> \<open>AtGateWait\<close>: \<^verbatim>\<open>await self._can_create_new_sessions.wait()\<close>, the event being clear;
  \<^item> \<open>AtAccept\<close>: \<^verbatim>\<open>await websocket.accept()\<close>;
  \<^item> \<open>AtCreateSession request\<close>: inside \<^verbatim>\<open>_create_session_from_websocket\<close>, waiting for
    the initial message and then for \<^verbatim>\<open>create_session\<close>;
  \<^item> \<open>AtServe sess\<close>: \<^verbatim>\<open>await sess.serve()\<close>;
  \<^item> \<open>Returned\<close> and \<open>Raised e\<close>: the coroutine is over.
\<close>

datatype phase =
  AtGateWait
| AtAccept
| AtCreateSession request
| AtServe sid
| Returned
| Raised exn

text \<open>
  What the awaited operation delivers when the coroutine resumes:
  \<^item> \<open>Resume\<close>: it returned (the event was set, the socket was accepted,
    \<^verbatim>\<open>sess.serve()\<close> returned);
  \<^item> \<open>SessionCreated sess\<close>: the initial message arrived and \<^verbatim>\<open>create_session\<close>
    returned a new session with these fields;
  \<^item> \<open>Failed e\<close>: it raised \<open>e\<close>; for the initial message that is
    \<^verbatim>\<open>TimeoutError\<close> after 60 seconds, for \<^verbatim>\<open>create_session\<close>
    \<^verbatim>\<open>routing.NavigationFailed\<close>, for \<^verbatim>\<open>sess.serve()\<close> \<^verbatim>\<open>CancelledError\<close> or
    \<^verbatim>\<open>WebSocketDisconnect(code)\<close>.
\<close>

datatype input =
  Resume
| SessionCreated session
| Failed exn

text \<open>
  The call of the handler up to its first suspension. \<^verbatim>\<open>Event.wait()\<close> returns at once
  when the event is set, and the handler goes on to call \<^verbatim>\<open>websocket.accept()\<close>;
  otherwise the coroutine waits for the event.
\<close>

definition serve_websocket_start :: "server \<Rightarrow> wsid \<Rightarrow> phase \<times> effect list" where
  "serve_websocket_start srv ws =
     (if can_create_new_sessions srv then (AtAccept, [WebsocketAccept ws]) else (AtGateWait, []))"

text \<open>
  The token lookup, from the return of \<^verbatim>\<open>accept()\<close> to the next \<^verbatim>\<open>await\<close>.
\<close>

definition lookup_session_token :: "server \<Rightarrow> wsid \<Rightarrow> token \<Rightarrow> server \<times> phase \<times> effect list" where
  "lookup_session_token srv ws tok =
     (case map_of (latent_session_tokens srv) tok of
        Some req \<Rightarrow>
          (let srv1 = srv\<lparr>latent_session_tokens := AList.delete tok (latent_session_tokens srv)\<rparr>
           in if request_client req = None then (srv1, Raised AssertionError, [])
              else (srv1, AtCreateSession req, []))
      | None \<Rightarrow>
          (case map_of (active_session_tokens srv) tok of
             None \<Rightarrow> (srv, Returned, [WebsocketClose ws 3000 ''Invalid session token.''])
           | Some sess \<Rightarrow>
               (srv\<lparr>session_store := (session_store srv)
                       (sess := (session_store srv sess)\<lparr>is_active_event := True\<rparr>)\<rparr>,
                AtServe sess,
                [CreateTaskSendAllComponents sess, SessionServe sess])))"

text \<open>
  The end of \<^verbatim>\<open>_create_session_from_websocket\<close> and what follows it in the handler: the
  new session gets a fresh identity, its \<^verbatim>\<open>receive_message\<close> closure holds the token,
  and the handler stores it in the active map and starts to serve.
\<close>

definition create_session_from_websocket ::
  "server \<Rightarrow> token \<Rightarrow> request \<Rightarrow> input \<Rightarrow> server \<times> phase \<times> effect list" where
  "create_session_from_websocket srv tok req i =
     (case i of
        SessionCreated new \<Rightarrow>
          (let sess = next_sid srv
           in (srv\<lparr>session_store := (session_store srv)(sess := new\<lparr>session_token := tok\<rparr>),
                   next_sid := Suc sess,
                   active_session_tokens := AList.update tok sess (active_session_tokens srv)\<rparr>,
               AtServe sess,
               [CreateTaskRefresh sess, SessionServe sess]))
      | Failed NavigationFailed \<Rightarrow>
          (srv, Raised (HTTPException 500
             (''Navigation to initial page `'' @ request_url req @ ''` has failed.'')), [])
      | Failed e \<Rightarrow> (srv, Raised e, [])
      | Resume \<Rightarrow> (srv, AtCreateSession req, []))"

text \<open>
  The \<^verbatim>\<open>try\<close> statement around \<^verbatim>\<open>sess.serve()\<close>: \<^verbatim>\<open>close()\<close> is called after a
  disconnect with code 1001 and after a plain return; the \<^verbatim>\<open>finally\<close> clause always
  clears the socket and the event; an exception that is neither \<^verbatim>\<open>CancelledError\<close> nor
  \<^verbatim>\<open>WebSocketDisconnect\<close> leaves the handler.
\<close>

definition clear_connection :: "server \<Rightarrow> sid \<Rightarrow> server" where
  "clear_connection srv sess =
     srv\<lparr>session_store := (session_store srv)
           (sess := (session_store srv sess)\<lparr>websocket := None, is_active_event := False\<rparr>)\<rparr>"

definition serve_ended :: "server \<Rightarrow> sid \<Rightarrow> input \<Rightarrow> server \<times> phase \<times> effect list" where
  "serve_ended srv sess i =
     (case i of
        Failed CancelledError \<Rightarrow> (clear_connection srv sess, Returned, [])
      | Failed (WebSocketDisconnect code) \<Rightarrow>
          (clear_connection srv sess, Returned, if code = 1001 then [SessionClose sess] else [])
      | Failed e \<Rightarrow> (clear_connection srv sess, Raised e, [])
      | Resume \<Rightarrow> (clear_connection srv sess, Returned, [SessionClose sess])
      | SessionCreated new \<Rightarrow> (srv, AtServe sess, []))"

text \<open>
  One resumption of the coroutine for socket \<open>ws\<close> and token \<open>tok\<close>. An input that
  the awaited operation cannot deliver leaves the coroutine where it is.
\<close>

definition serve_websocket_step ::
  "server \<Rightarrow> wsid \<Rightarrow> token \<Rightarrow> phase \<Rightarrow> input \<Rightarrow> server \<times> phase \<times> effect list" where
  "serve_websocket_step srv ws tok ph i =
     (case ph of
        AtGateWait \<Rightarrow>
          (case i of
             Resume \<Rightarrow> (srv, AtAccept, [WebsocketAccept ws])
           | Failed e \<Rightarrow> (srv, Raised e, [])
           | _ \<Rightarrow> (srv, AtGateWait, []))
      | AtAccept \<Rightarrow>
          (case i of
             Resume \<Rightarrow> lookup_session_token srv ws tok
           | Failed e \<Rightarrow> (srv, Raised e, [])
           | _ \<Rightarrow> (srv, AtAccept, []))
      | AtCreateSession req \<Rightarrow> create_session_from_websocket srv tok req i
      | AtServe sess \<Rightarrow> serve_ended srv sess i
      | Returned \<Rightarrow> (srv, Returned, [])
      | Raised e \<Rightarrow> (srv, Raised e, []))"

text \<open>
  The \<^verbatim>\<open>receive_message\<close> closure of a session begins by storing the session in the
  active map again, under the token it captured.
\<close>

definition receive_message :: "server \<Rightarrow> sid \<Rightarrow> server" where
  "receive_message srv sess =
     srv\<lparr>active_session_tokens :=
           AList.update (session_token (session_store srv sess)) sess (active_session_tokens srv)\<rparr>"

text \<open>
  Modelled from the spec: \<^verbatim>\<open>Session.close\<close> is a method of \<^verbatim>\<open>rio.Session\<close>, whose code
  is not in \<^verbatim>\<open>fastapi_server.py\<close>. The spec (4.2) says of closing that it "terminates and
  removes sessions", and (4.3) that a session closed on purpose is "closed and removed".
  The model removes every entry of the active map that holds the session.
\<close>

definition session_close :: "server \<Rightarrow> sid \<Rightarrow> server" where
  "session_close srv sess =
     srv\<lparr>active_session_tokens := filter (\<lambda>entry. snd entry \<noteq> sess) (active_session_tokens srv)\<rparr>"

text \<open>The keys of a dictionary.\<close>

definition keys :: "('k \<times> 'v) list \<Rightarrow> 'k set" where
  "keys d = fst ` set d"

subsection \<open>The server and its coroutines\<close>

text \<open>
  The handlers run interleaved on one event loop, each from one \<^verbatim>\<open>await\<close> to the next.
  A system is the server, the suspended \<^verbatim>\<open>_serve_websocket\<close> coroutines (by socket:
  the token each was called with and its phase), the coroutines that wait for the gate
  and have been woken by \<^verbatim>\<open>Event.set()\<close>, and the tokens that
  \<^verbatim>\<open>secrets.token_urlsafe()\<close> has returned so far.
\<close>

record system =
  the_server :: server
  coroutines :: "(wsid \<times> token \<times> phase) list"
  woken :: "wsid list"
  issued :: "token list"

definition init_system :: system where
  "init_system = \<lparr>the_server = init_server, coroutines = [], woken = [], issued = []\<rparr>"

text \<open>
  What can happen next:
  \<^item> \<open>HttpIndex crawl tok req\<close>: a GET that \<^verbatim>\<open>_serve_index\<close> answers; \<open>tok\<close> is the
    result of \<^verbatim>\<open>secrets.token_urlsafe()\<close> when that is called;
  \<^item> \<open>WsConnect ws tok\<close>: \<^verbatim>\<open>_serve_websocket\<close> is called with a new socket;
  \<^item> \<open>WsResume ws i\<close>: the coroutine of socket \<open>ws\<close> is resumed with \<open>i\<close>;
  \<^item> \<open>ReceiveMessage sess\<close>: the session calls its \<^verbatim>\<open>receive_message\<close>;
  \<^item> \<open>SessionClosed sess\<close>: a \<^verbatim>\<open>close()\<close> of the session takes effect, whoever called
    it (the handler, the reaper, the shutdown, the app);
  \<^item> \<open>DisableNewSessions\<close>, \<open>EnableNewSessions\<close>: entry to and exit from
    \<^verbatim>\<open>temporarily_disable_new_session_creation\<close>.
\<close>

datatype event =
  HttpIndex "crawl option" token request
| WsConnect wsid token
| WsResume wsid input
| ReceiveMessage sid
| SessionClosed sid
| DisableNewSessions
| EnableNewSessions

text \<open>
  One event; \<open>None\<close> when it cannot happen in this state: the token generator repeats a
  token it returned before, a socket object is handed to the handler twice, a coroutine
  is resumed that does not exist or still waits for the gate, or a session calls that
  was never created.
\<close>

definition step :: "event \<Rightarrow> system \<Rightarrow> system option" where
  "step e s =
     (case e of
        HttpIndex crawl tok req \<Rightarrow>
          (case crawl of
             Some c \<Rightarrow> Some (s\<lparr>the_server := fst (serve_index (the_server s) crawl tok req)\<rparr>)
           | None \<Rightarrow>
               if tok \<in> set (issued s) then None
               else Some (s\<lparr>the_server := fst (serve_index (the_server s) None tok req),
                           issued := tok # issued s\<rparr>))
      | WsConnect ws tok \<Rightarrow>
          if ws \<in> keys (coroutines s) then None
          else Some (s\<lparr>coroutines :=
                 AList.update ws (tok, fst (serve_websocket_start (the_server s) ws))
                   (coroutines s)\<rparr>)
      | WsResume ws i \<Rightarrow>
          (case map_of (coroutines s) ws of
             None \<Rightarrow> None
           | Some (tok, ph) \<Rightarrow>
               if ph = AtGateWait \<and> ws \<notin> set (woken s) then None
               else
                 (case serve_websocket_step (the_server s) ws tok ph i of
                    (srv, ph', effects) \<Rightarrow>
                      Some (s\<lparr>the_server := srv,
                              coroutines := AList.update ws (tok, ph') (coroutines s),
                              woken := removeAll ws (woken s)\<rparr>)))
      | ReceiveMessage sess \<Rightarrow>
          if sess < next_sid (the_server s)
          then Some (s\<lparr>the_server := receive_message (the_server s) sess\<rparr>)
          else None
      | SessionClosed sess \<Rightarrow> Some (s\<lparr>the_server := session_close (the_server s) sess\<rparr>)
      | DisableNewSessions \<Rightarrow>
          Some (s\<lparr>the_server := disable_new_session_creation (the_server s)\<rparr>)
      | EnableNewSessions \<Rightarrow>
          Some (s\<lparr>the_server := enable_new_session_creation (the_server s),
                  woken := map fst (filter (\<lambda>c. snd (snd c) = AtGateWait) (coroutines s))\<rparr>))"

fun run :: "event list \<Rightarrow> system \<Rightarrow> system option" where
  "run [] s = Some s"
| "run (e # es) s = (case step e s of None \<Rightarrow> None | Some s' \<Rightarrow> run es s')"

text \<open>
  What holds of the tokens in every state the system reaches: the two maps share no
  token; every token in a map, held by a coroutine that creates a session, or captured
  by a session was issued; and no token of the latter two kinds is in the latent map.
\<close>

definition tokens_ok :: "system \<Rightarrow> bool" where
  "tokens_ok s =
     (keys (latent_session_tokens (the_server s))
        \<inter> keys (active_session_tokens (the_server s)) = {}
      \<and> keys (latent_session_tokens (the_server s)) \<subseteq> set (issued s)
      \<and> keys (active_session_tokens (the_server s)) \<subseteq> set (issued s)
      \<and> (\<forall>ws tok req. map_of (coroutines s) ws = Some (tok, AtCreateSession req) \<longrightarrow>
            tok \<in> set (issued s)
            \<and> tok \<notin> keys (latent_session_tokens (the_server s)))
      \<and> (\<forall>sess. sess < next_sid (the_server s) \<longrightarrow>
            session_token (session_store (the_server s) sess) \<in> set (issued s)
            \<and> session_token (session_store (the_server s) sess)
                \<notin> keys (latent_session_tokens (the_server s))))"

section \<open>Properties\<close>

subsection \<open>Routing of hosted assets\<close>

text \<open>
  C10. The claim is that a GET for the fragment that \<^verbatim>\<open>weakly_host_asset\<close> returns
  reaches the handler of temporary assets. It does not: the fragment starts with
  \<^verbatim>\<open>/rio/assets/temp/\<close> while the route is \<^verbatim>\<open>/rio/asset/temp/{asset_id:path}\<close>, so for
  every secret id the request is routed elsewhere or to nothing, never to
  \<^verbatim>\<open>_serve_temp_asset\<close>; for the id \<^verbatim>\<open>abc\<close> it lands on the index page.
\<close>

theorem hosted_asset_url_misses_temp_route:
  "dispatch (Http GET) (snd (weakly_host_asset srv secret_id a))
     \<noteq> Routed ServeTempAsset secret_id
   \<and> (\<forall>x. dispatch (Http GET) (snd (weakly_host_asset srv secret_id a))
          \<noteq> Routed ServeTempAsset x)
   \<and> dispatch (Http GET) (snd (weakly_host_asset srv ''abc'' a))
       = Routed ServeIndex ''rio/assets/temp/abc''
   \<and> dispatch (Http GET) (''/rio/asset/temp/'' @ ''abc'') = Routed ServeTempAsset ''abc''"
  by (simp add: dispatch_def routes_def weakly_host_asset_def api_route_def
      api_websocket_route_def route_matches_def param_matches_def param_of_def newline_def
      split: option.split)

subsection \<open>The reaper\<close>

text \<open>
  C5. A pass of the reaper calls \<^verbatim>\<open>close()\<close> on exactly the sessions of the active map
  whose last interaction is before now minus 60 minutes. Whether a session is expired
  does not depend on its socket or its is-active event; a session whose last interaction
  is 59 minutes old is not expired; and every pass is preceded by a sleep of 15 minutes.
\<close>

theorem reaper_closes_exactly_the_expired:
  "set (reaper_pass srv now) =
     {s. s \<in> snd ` set (active_session_tokens srv)
         \<and> last_interaction_timestamp (session_store srv s) < now - 60 * 60}
   \<and> expired c (sess\<lparr>websocket := w, is_active_event := e\<rparr>) = expired c sess
   \<and> \<not> expired (now - SESSION_LIFETIME) (sess\<lparr>last_interaction_timestamp := now - 59 * 60\<rparr>)
   \<and> expired (now - SESSION_LIFETIME) (sess\<lparr>last_interaction_timestamp := now - 61 * 60\<rparr>)
   \<and> periodically_clean_up_expired_sessions ((Some srv, now) # rest) =
       Sleep (15 * 60) # map SessionClose (reaper_pass srv now)
         @ periodically_clean_up_expired_sessions rest"
  by (auto simp: reaper_pass_def expired_def SESSION_LIFETIME_def LOOP_INTERVAL_def)

subsection \<open>Uploads\<close>


lemma pending_after_upload:
  "pending_file_uploads (fst (serve_file_upload py srv t ns ts zs fs))
     = AList.delete t (pending_file_uploads srv)"
  by (auto simp: serve_file_upload_def Let_def delete_notin_dom map_of_eq_None_iff
      AList.delete_idem split: option.splits sum.splits)

lemma upload_absent:
  "map_of (pending_file_uploads srv) t = None \<Longrightarrow>
     serve_file_upload py srv t ns ts zs fs
       = (srv, Inl (HTTPException 400 ''Invalid upload token.''))"
  by (simp add: serve_file_upload_def)

lemma upload_keeps_absent:
  "map_of (pending_file_uploads srv) tok = None \<Longrightarrow>
     map_of (pending_file_uploads (fst (serve_file_upload py srv t ns ts zs fs))) tok = None"
  by (simp add: pending_after_upload delete_conv)

lemma uploads_absent_all_400:
  "map_of (pending_file_uploads srv) tok = None \<Longrightarrow>
   filter (\<lambda>(rq, rs). fst rq = tok \<and> rs \<noteq> Inl (HTTPException 400 ''Invalid upload token.''))
     (zip reqs (serve_file_uploads py srv reqs)) = []"
proof (induction reqs arbitrary: srv)
  case Nil
  then show ?case by simp
next
  case (Cons rq reqs)
  obtain t ns ts zs fs where rq: "rq = (t, ns, ts, zs, fs)" by (cases rq) auto
  have keep:
    "map_of (pending_file_uploads (fst (serve_file_upload py srv t ns ts zs fs))) tok = None"
    using Cons.prems by (rule upload_keeps_absent)
  show ?case
    using Cons.IH [OF keep] upload_absent [OF Cons.prems, of py ns ts zs fs] by (auto simp: rq)
qed

lemma uploads_at_most_one:
  "length (filter (\<lambda>(rq, rs). fst rq = tok \<and> rs \<noteq> Inl (HTTPException 400 ''Invalid upload token.''))
     (zip reqs (serve_file_uploads py srv reqs))) \<le> 1"
proof (induction reqs arbitrary: srv)
  case Nil
  then show ?case by simp
next
  case (Cons rq reqs)
  obtain t ns ts zs fs where rq: "rq = (t, ns, ts, zs, fs)" by (cases rq) auto
  show ?case
  proof (cases "t = tok")
    case True
    have "map_of (pending_file_uploads (fst (serve_file_upload py srv tok ns ts zs fs))) tok = None"
      by (simp add: pending_after_upload delete_conv)
    from uploads_absent_all_400 [OF this] show ?thesis by (simp add: rq True)
  next
    case False
    with Cons.IH show ?thesis by (simp add: rq)
  qed
qed

lemma upload_future_store:
  "snd (serve_file_upload py srv t ns ts zs fs) \<noteq> Inr (Response 200 []) \<Longrightarrow>
   future_store (fst (serve_file_upload py srv t ns ts zs fs)) = future_store srv"
  by (auto simp: serve_file_upload_def Let_def split: option.splits sum.splits)


lemmas py_int_defs = py_int_def PyLong_FromString_def long_from_digits_def digits_def
  is_digit_def digit_of_def Py_ISSPACE_def unicode_isspace_def str_def Let_def

lemma upload_other_futures:
  "map_of (pending_file_uploads srv) t \<noteq> Some f \<Longrightarrow>
     future_store (fst (serve_file_upload py srv t ns ts zs fs)) f = future_store srv f"
  by (auto simp: serve_file_upload_def Let_def split: option.splits sum.splits)

lemma upload_resolved_stays:
  "future_store srv f = Resolved v \<Longrightarrow>
     future_store (fst (serve_file_upload py srv t ns ts zs fs)) f = Resolved v"
  by (auto simp: serve_file_upload_def Let_def set_result_def
      split: option.splits sum.splits future.splits)

text \<open>
  C6. The upload endpoint answers an upload token that is not in the map of pending
  uploads, because it never was or because it has expired, with the bad-request error
  400 and changes nothing. A token that is in the map is removed by the lookup,
  whatever the call does next: after any call the token is absent, and a second call
  with the same token gets 400. Only a call that answers 200 changes a future, no call
  changes a future other than the one registered under its token, and a future that is
  resolved keeps its result through every later call. In any sequence of upload requests
  at most one request with a given token gets past the lookup.
\<close>

theorem upload_token_single_use:
  "(map_of (pending_file_uploads srv) tok = None \<longrightarrow>
      serve_file_upload py srv tok ns ts zs fs
        = (srv, Inl (HTTPException 400 ''Invalid upload token.'')))
   \<and> pending_file_uploads (fst (serve_file_upload py srv tok ns ts zs fs))
       = AList.delete tok (pending_file_uploads srv)
   \<and> map_of (pending_file_uploads (fst (serve_file_upload py srv tok ns ts zs fs))) tok = None
   \<and> serve_file_upload py (fst (serve_file_upload py srv tok ns ts zs fs)) tok ns' ts' zs' fs'
       = (fst (serve_file_upload py srv tok ns ts zs fs),
          Inl (HTTPException 400 ''Invalid upload token.''))
   \<and> serve_file_upload py (expire_upload srv tok) tok ns ts zs fs
       = (expire_upload srv tok, Inl (HTTPException 400 ''Invalid upload token.''))
   \<and> (snd (serve_file_upload py srv tok ns ts zs fs) \<noteq> Inr (Response 200 []) \<longrightarrow>
        future_store (fst (serve_file_upload py srv tok ns ts zs fs)) = future_store srv)
   \<and> (map_of (pending_file_uploads srv) tok \<noteq> Some f \<longrightarrow>
        future_store (fst (serve_file_upload py srv tok ns ts zs fs)) f = future_store srv f)
   \<and> (future_store srv f = Resolved v \<longrightarrow>
        future_store (fst (serve_file_upload py srv tok ns ts zs fs)) f = Resolved v)
   \<and> length (filter (\<lambda>(rq, rs). fst rq = tok
                  \<and> rs \<noteq> Inl (HTTPException 400 ''Invalid upload token.''))
        (zip reqs (serve_file_uploads py srv reqs))) \<le> 1"
proof -
  have gone:
    "map_of (pending_file_uploads (fst (serve_file_upload py srv tok ns ts zs fs))) tok = None"
    by (simp add: pending_after_upload delete_conv)
  have expired: "map_of (pending_file_uploads (expire_upload srv tok)) tok = None"
    by (simp add: expire_upload_def delete_conv)
  note second = upload_absent [OF gone, of py ns' ts' zs' fs']
  note late = upload_absent [OF expired, of py ns ts zs fs]
  show ?thesis
    using uploads_at_most_one [of tok reqs py srv]
    by (intro conjI impI)
       (simp_all add: upload_absent second late pending_after_upload delete_conv
          upload_future_store upload_other_futures upload_resolved_stays)
qed

theorem upload_token_single_use_witness:
  "map_of (pending_file_uploads init_server) ''t'' = None
   \<and> serve_file_upload example_python init_server ''t'' [''a''] [''x''] [str ''1''] [''d'']
       = (init_server, Inl (HTTPException 400 ''Invalid upload token.''))
   \<and> snd (serve_file_upload example_python (file_chooser_register init_server ''t'') ''t''
            [''a''] [''x''] [str ''abc''] [''d''])
       = Inl (HTTPException 422 ''Invalid file size.'')
   \<and> future_store (fst (serve_file_upload example_python
            (file_chooser_register init_server ''t'') ''t''
            [''a''] [''x''] [str ''abc''] [''d'']))
       = future_store (file_chooser_register init_server ''t'')
   \<and> snd (serve_file_upload example_python
            (fst (serve_file_upload example_python (file_chooser_register init_server ''t'')
                    ''t'' [''a''] [''x''] [str ''abc''] [''d'']))
            ''t'' [''a''] [''x''] [str ''1''] [''d''])
       = Inl (HTTPException 400 ''Invalid upload token.'')
   \<and> map_of (pending_file_uploads (file_chooser_register init_server ''t'')) ''u'' \<noteq> Some 0
   \<and> future_store (fst (serve_file_upload example_python
            (file_chooser_register init_server ''t'') ''u''
            [''a''] [''x''] [str ''1''] [''d''])) 0 = Pending
   \<and> future_store (fst (serve_file_upload example_python
            (file_chooser_register init_server ''t'') ''t''
            [''a''] [''x''] [str ''1''] [''d''])) 0
       = Resolved [\<lparr>file_name = ''a'', size_in_bytes = 1, media_type = ''x'', contents = ''d''\<rparr>]
   \<and> future_store (fst (serve_file_upload example_python
            (fst (serve_file_upload example_python (file_chooser_register init_server ''t'')
                    ''t'' [''a''] [''x''] [str ''1''] [''d'']))
            ''t'' [''b''] [''y''] [str ''2''] [''e''])) 0
       = Resolved [\<lparr>file_name = ''a'', size_in_bytes = 1, media_type = ''x'', contents = ''d''\<rparr>]"
proof -
  have absent: "map_of (pending_file_uploads init_server) ''t'' = None"
    by (simp add: init_server_def)
  have failed: "snd (serve_file_upload example_python (file_chooser_register init_server ''t'')
            ''t'' [''a''] [''x''] [str ''abc''] [''d''])
       = Inl (HTTPException 422 ''Invalid file size.'')"
    by (simp add: serve_file_upload_def file_chooser_register_def init_server_def py_int_defs
        example_python_def)
  have other:
    "map_of (pending_file_uploads (file_chooser_register init_server ''t'')) ''u'' \<noteq> Some 0"
    by (simp add: file_chooser_register_def init_server_def)
  have pend: "future_store (file_chooser_register init_server ''t'') 0 = Pending"
    by (simp add: file_chooser_register_def init_server_def)
  have res: "future_store (fst (serve_file_upload example_python
            (file_chooser_register init_server ''t'') ''t''
            [''a''] [''x''] [str ''1''] [''d''])) 0
       = Resolved [\<lparr>file_name = ''a'', size_in_bytes = 1, media_type = ''x'', contents = ''d''\<rparr>]"
    by (simp add: serve_file_upload_def file_chooser_register_def init_server_def py_int_defs
        example_python_def set_result_def file_infos_def)
  show ?thesis
    using absent failed other pend res
      upload_token_single_use [of init_server "''t''" example_python
        "[''a'']" "[''x'']" "[str ''1'']" "[''d'']"]
      upload_token_single_use [of "file_chooser_register init_server ''t''" "''t''"
        example_python "[''a'']" "[''x'']" "[str ''abc'']" "[''d'']"
        "[''a'']" "[''x'']" "[str ''1'']" "[''d'']"]
      upload_token_single_use [of "file_chooser_register init_server ''t''" "''u''"
        example_python "[''a'']" "[''x'']" "[str ''1'']" "[''d'']" _ _ _ _ 0]
      upload_token_single_use [of "fst (serve_file_upload example_python
            (file_chooser_register init_server ''t'') ''t''
            [''a''] [''x''] [str ''1''] [''d''])" "''t''" example_python
        "[''b'']" "[''y'']" "[str ''2'']" "[''e'']" _ _ _ _ 0
        "[\<lparr>file_name = ''a'', size_in_bytes = 1, media_type = ''x'', contents = ''d''\<rparr>]"]
    by simp
qed






subsection \<open>The token maps\<close>

lemma keys_Nil: "keys [] = {}"
  by (simp add: keys_def)

lemma keys_update: "keys (AList.update k v al) = insert k (keys al)"
  by (simp add: keys_def dom_update)

lemma keys_delete: "keys (AList.delete k al) = keys al - {k}"
  unfolding keys_def by (induction al) auto

lemma keys_filter: "keys (filter P al) \<subseteq> keys al"
  unfolding keys_def by auto

lemma keys_map_of: "(map_of al k = None) = (k \<notin> keys al)"
  by (simp add: keys_def map_of_eq_None_iff)

lemma map_of_keys: "map_of al k = Some v \<Longrightarrow> k \<in> keys al"
  using keys_map_of [of al k] by auto

lemmas keys_simps = keys_Nil keys_update keys_delete keys_map_of

lemma tokens_ok_init: "tokens_ok init_system"
  by (simp add: tokens_ok_def init_system_def init_server_def keys_simps)

lemma serve_index_crawler: "fst (serve_index srv (Some c) tok req) = srv"
  by (cases c) (simp_all add: serve_index_def)

lemma tokens_ok_index:
  assumes "tokens_ok s" "step (HttpIndex crawl tok req) s = Some s'"
  shows "tokens_ok s'"
proof (cases crawl)
  case None
  with assms show ?thesis
    by (clarsimp simp: tokens_ok_def step_def serve_index_def keys_simps split: if_splits)
       (blast+)?
next
  case (Some c)
  with assms show ?thesis
    by (auto simp: tokens_ok_def step_def serve_index_crawler)
qed

lemma tokens_ok_connect:
  assumes "tokens_ok s" "step (WsConnect ws tok) s = Some s'"
  shows "tokens_ok s'"
  using assms
  by (clarsimp simp: tokens_ok_def step_def serve_websocket_start_def update_conv'
           split: if_splits) (blast+)?

lemma tokens_ok_receive:
  assumes "tokens_ok s" "step (ReceiveMessage sess) s = Some s'"
  shows "tokens_ok s'"
  using assms
  by (clarsimp simp: tokens_ok_def step_def receive_message_def keys_simps split: if_splits)
     (blast+)?

lemma tokens_ok_closed:
  assumes "tokens_ok s" "step (SessionClosed sess) s = Some s'"
  shows "tokens_ok s'"
  using assms keys_filter [of "\<lambda>entry. snd entry \<noteq> sess" "active_session_tokens (the_server s)"]
  by (clarsimp simp: tokens_ok_def step_def session_close_def split: if_splits) (blast+)?

lemma tokens_ok_gate:
  assumes "tokens_ok s" "step DisableNewSessions s = Some s' \<or> step EnableNewSessions s = Some s'"
  shows "tokens_ok s'"
  using assms
  by (elim disjE; clarsimp simp: tokens_ok_def step_def disable_new_session_creation_def
        enable_new_session_creation_def; (blast+)?)

lemma tokens_ok_lookup:
  assumes "tokens_ok s" "map_of (coroutines s) ws = Some (tok, AtAccept)"
    "lookup_session_token (the_server s) ws tok = (srv, ph', effects)"
  shows "tokens_ok (s\<lparr>the_server := srv,
                       coroutines := AList.update ws (tok, ph') (coroutines s),
                       woken := w\<rparr>)"
proof (cases "map_of (latent_session_tokens (the_server s)) tok")
  case None
  with assms show ?thesis
    by (clarsimp simp: tokens_ok_def lookup_session_token_def update_conv'
        split: option.splits) (blast+)?
next
  case (Some r)
  with assms map_of_keys [OF Some] show ?thesis
    by (clarsimp simp: tokens_ok_def lookup_session_token_def Let_def update_conv' keys_delete
        split: if_splits) (blast+)?
qed

lemma tokens_ok_create:
  assumes "tokens_ok s" "map_of (coroutines s) ws = Some (tok, AtCreateSession req)"
    "create_session_from_websocket (the_server s) tok req i = (srv, ph', effects)"
  shows "tokens_ok (s\<lparr>the_server := srv,
                       coroutines := AList.update ws (tok, ph') (coroutines s),
                       woken := w\<rparr>)"
proof (cases i)
  case Resume
  with assms show ?thesis
    by (clarsimp simp: tokens_ok_def create_session_from_websocket_def update_conv') (blast+)?
next
  case (SessionCreated new)
  with assms show ?thesis
    by (clarsimp simp: tokens_ok_def create_session_from_websocket_def Let_def update_conv'
        keys_update less_Suc_eq) (blast+)?
next
  case (Failed e)
  have "srv = the_server s \<and> (\<forall>r. ph' \<noteq> AtCreateSession r)"
    using assms(3) Failed by (cases e) (auto simp: create_session_from_websocket_def)
  with assms(1) show ?thesis
    by (clarsimp simp: tokens_ok_def update_conv') (blast+)?
qed

lemma tokens_ok_ended:
  assumes "tokens_ok s" "map_of (coroutines s) ws = Some (tok, AtServe sess)"
    "serve_ended (the_server s) sess i = (srv, ph', effects)"
  shows "tokens_ok (s\<lparr>the_server := srv,
                       coroutines := AList.update ws (tok, ph') (coroutines s),
                       woken := w\<rparr>)"
proof -
  have "(srv = the_server s \<or> srv = clear_connection (the_server s) sess)
        \<and> (\<forall>r. ph' \<noteq> AtCreateSession r)"
    using assms(3) by (auto simp: serve_ended_def split: input.splits exn.splits)
  with assms(1) show ?thesis
    by (elim conjE disjE; clarsimp simp: tokens_ok_def clear_connection_def update_conv';
        (blast+)?)
qed

lemma tokens_ok_idle:
  assumes "tokens_ok s" "\<forall>req. ph' \<noteq> AtCreateSession req"
  shows "tokens_ok (s\<lparr>coroutines := AList.update ws (tok, ph') (coroutines s),
                       woken := w\<rparr>)"
  using assms
  by (clarsimp simp: tokens_ok_def update_conv') (blast+)?


lemma tokens_ok_resume:
  assumes "tokens_ok s" "step (WsResume ws i) s = Some s'"
  shows "tokens_ok s'"
proof -
  from assms(2) obtain tok ph where co: "map_of (coroutines s) ws = Some (tok, ph)"
    by (auto simp: step_def split: option.splits)
  obtain srv ph' effects where st: "serve_websocket_step (the_server s) ws tok ph i = (srv, ph', effects)"
    by (cases "serve_websocket_step (the_server s) ws tok ph i") auto
  from assms(2) co st have s': "s' = s\<lparr>the_server := srv,
      coroutines := AList.update ws (tok, ph') (coroutines s), woken := removeAll ws (woken s)\<rparr>"
    by (auto simp: step_def split: if_splits)
  show ?thesis
  proof (cases ph)
    case AtGateWait
    with st have "srv = the_server s \<and> (\<forall>r. ph' \<noteq> AtCreateSession r)"
      by (auto simp: serve_websocket_step_def split: input.splits)
    with tokens_ok_idle [OF assms(1), where ph' = ph' and ws = ws and tok = tok
        and w = "removeAll ws (woken s)"] show ?thesis
      by (simp add: s')
  next
    case AtAccept
    show ?thesis
    proof (cases i)
      case Resume
      with st AtAccept have "lookup_session_token (the_server s) ws tok = (srv, ph', effects)"
        by (simp add: serve_websocket_step_def)
      from tokens_ok_lookup [OF assms(1) co [unfolded AtAccept] this] show ?thesis
        by (simp add: s')
    next
      case (SessionCreated new)
      with st AtAccept have "srv = the_server s \<and> (\<forall>r. ph' \<noteq> AtCreateSession r)"
        by (auto simp: serve_websocket_step_def)
      with tokens_ok_idle [OF assms(1), where ph' = ph' and ws = ws and tok = tok
        and w = "removeAll ws (woken s)"] show ?thesis
        by (simp add: s')
    next
      case (Failed e)
      with st AtAccept have "srv = the_server s \<and> (\<forall>r. ph' \<noteq> AtCreateSession r)"
        by (auto simp: serve_websocket_step_def)
      with tokens_ok_idle [OF assms(1), where ph' = ph' and ws = ws and tok = tok
        and w = "removeAll ws (woken s)"] show ?thesis
        by (simp add: s')
    qed
  next
    case (AtCreateSession req)
    with st have "create_session_from_websocket (the_server s) tok req i = (srv, ph', effects)"
      by (simp add: serve_websocket_step_def)
    from tokens_ok_create [OF assms(1) co [unfolded AtCreateSession] this] show ?thesis
      by (simp add: s')
  next
    case (AtServe sess)
    with st have "serve_ended (the_server s) sess i = (srv, ph', effects)"
      by (simp add: serve_websocket_step_def)
    from tokens_ok_ended [OF assms(1) co [unfolded AtServe] this] show ?thesis
      by (simp add: s')
  next
    case Returned
    with st have "srv = the_server s \<and> (\<forall>r. ph' \<noteq> AtCreateSession r)"
      by (auto simp: serve_websocket_step_def)
    with tokens_ok_idle [OF assms(1), where ph' = ph' and ws = ws and tok = tok
        and w = "removeAll ws (woken s)"] show ?thesis
      by (simp add: s')
  next
    case (Raised e)
    with st have "srv = the_server s \<and> (\<forall>r. ph' \<noteq> AtCreateSession r)"
      by (auto simp: serve_websocket_step_def)
    with tokens_ok_idle [OF assms(1), where ph' = ph' and ws = ws and tok = tok
        and w = "removeAll ws (woken s)"] show ?thesis
      by (simp add: s')
  qed
qed

lemma tokens_ok_step:
  assumes "tokens_ok s" "step e s = Some s'"
  shows "tokens_ok s'"
proof (cases e)
  case (HttpIndex crawl tok req)
  with assms show ?thesis by (auto intro: tokens_ok_index)
next
  case (WsConnect ws tok)
  with assms show ?thesis by (auto intro: tokens_ok_connect)
next
  case (WsResume ws i)
  with assms show ?thesis by (auto intro: tokens_ok_resume)
next
  case (ReceiveMessage sess)
  with assms show ?thesis by (auto intro: tokens_ok_receive)
next
  case (SessionClosed sess)
  with assms show ?thesis by (auto intro: tokens_ok_closed)
next
  case DisableNewSessions
  with assms show ?thesis by (auto intro: tokens_ok_gate)
next
  case EnableNewSessions
  with assms show ?thesis by (auto intro: tokens_ok_gate)
qed

lemma tokens_ok_run:
  "tokens_ok s \<Longrightarrow> run es s = Some s' \<Longrightarrow> tokens_ok s'"
  by (induction es arbitrary: s) (auto split: option.splits dest: tokens_ok_step)

lemma lookup_latent:
  "map_of (latent_session_tokens (fst (lookup_session_token srv ws tok)))
     = (map_of (latent_session_tokens srv))(tok := None)"
  by (auto simp: lookup_session_token_def Let_def delete_conv' split: option.splits)

lemma lookup_active:
  "active_session_tokens (fst (lookup_session_token srv ws tok)) = active_session_tokens srv"
  by (auto simp: lookup_session_token_def Let_def split: option.splits)

lemma create_latent:
  "latent_session_tokens (fst (create_session_from_websocket srv tok req i))
     = latent_session_tokens srv"
  by (auto simp: create_session_from_websocket_def Let_def split: input.splits exn.splits)

lemma ended_latent:
  "latent_session_tokens (fst (serve_ended srv sess i)) = latent_session_tokens srv"
  by (auto simp: serve_ended_def clear_connection_def split: input.splits exn.splits)

lemma step_latent:
  "map_of (latent_session_tokens (fst (serve_websocket_step srv ws tok' ph i))) tok
     = map_of (latent_session_tokens srv) tok
   \<or> (ph = AtAccept \<and> i = Resume \<and> tok' = tok)"
proof (cases ph)
  case AtGateWait
  then show ?thesis by (cases i) (simp_all add: serve_websocket_step_def)
next
  case AtAccept
  then show ?thesis
    by (cases i) (simp_all add: serve_websocket_step_def lookup_latent)
next
  case (AtCreateSession req)
  then show ?thesis by (simp add: serve_websocket_step_def create_latent)
next
  case (AtServe sess)
  then show ?thesis by (simp add: serve_websocket_step_def ended_latent)
next
  case Returned
  then show ?thesis by (simp add: serve_websocket_step_def)
next
  case (Raised e)
  then show ?thesis by (simp add: serve_websocket_step_def)
qed

lemma latent_kept:
  assumes ok: "tokens_ok s" and st: "step e s = Some s'"
    and lat: "map_of (latent_session_tokens (the_server s)) tok = Some req"
  shows "map_of (latent_session_tokens (the_server s')) tok = Some req
     \<or> (\<exists>ws. e = WsResume ws Resume \<and> map_of (coroutines s) ws = Some (tok, AtAccept))"
proof (cases e)
  case (HttpIndex crawl tok' req')
  show ?thesis
  proof (cases crawl)
    case None
    from ok map_of_keys [OF lat] have "tok \<in> set (issued s)"
      by (auto simp: tokens_ok_def)
    with st lat HttpIndex None show ?thesis
      by (auto simp: step_def serve_index_def update_conv' split: if_splits)
  next
    case (Some c)
    with st lat HttpIndex show ?thesis
      by (auto simp: step_def serve_index_crawler)
  qed
next
  case (WsConnect ws tok')
  with st lat show ?thesis by (auto simp: step_def split: if_splits)
next
  case (WsResume ws i)
  from st WsResume obtain tok' ph where co: "map_of (coroutines s) ws = Some (tok', ph)"
    by (auto simp: step_def split: option.splits)
  from st WsResume co have s': "the_server s' = fst (serve_websocket_step (the_server s) ws tok' ph i)"
    by (auto simp: step_def split: if_splits prod.splits)
  from step_latent [of "the_server s" ws tok' ph i tok] show ?thesis
    using lat co WsResume s' by auto
next
  case (ReceiveMessage sess)
  with st lat show ?thesis by (auto simp: step_def receive_message_def split: if_splits)
next
  case (SessionClosed sess)
  with st lat show ?thesis by (auto simp: step_def session_close_def)
next
  case DisableNewSessions
  with st lat show ?thesis by (auto simp: step_def disable_new_session_creation_def)
next
  case EnableNewSessions
  with st lat show ?thesis by (auto simp: step_def enable_new_session_creation_def)
qed

lemmas run_defs = step_def init_system_def init_server_def serve_index_def
  serve_websocket_start_def serve_websocket_step_def lookup_session_token_def
  create_session_from_websocket_def serve_ended_def clear_connection_def receive_message_def
  session_close_def disable_new_session_creation_def enable_new_session_creation_def
  unallocated_session_def keys_def

text \<open>
  C1. In every state the server reaches, with tokens that the generator issues fresh, no
  token is in both the latent and the active map. Registering a token
  (\<^verbatim>\<open>_serve_index\<close> for a client that is no crawler) stores it in the latent map and
  leaves the active map alone. The websocket handler pops the token from the latent map
  at the lookup, which never touches the active map, and stores it in the active map
  only later, when the session has been created: promotion pops before it inserts. A
  token that is in the latent map is not in the active map, and it stays in the latent
  map with its request through every event but the lookup of a websocket handler that
  was called with this token.
\<close>

theorem token_in_at_most_one_map:
  assumes "run es init_system = Some s"
  shows "keys (latent_session_tokens (the_server s))
           \<inter> keys (active_session_tokens (the_server s)) = {}
    \<and> active_session_tokens (fst (serve_index srv None tok req)) = active_session_tokens srv
    \<and> map_of (latent_session_tokens (fst (serve_index srv None tok req))) tok = Some req
    \<and> tok \<notin> keys (latent_session_tokens (fst (lookup_session_token srv ws tok)))
    \<and> active_session_tokens (fst (lookup_session_token srv ws tok)) = active_session_tokens srv
    \<and> latent_session_tokens (fst (create_session_from_websocket srv tok req (SessionCreated new)))
        = latent_session_tokens srv
    \<and> map_of (active_session_tokens
          (fst (create_session_from_websocket srv tok req (SessionCreated new)))) tok
        = Some (next_sid srv)
    \<and> (map_of (latent_session_tokens (the_server s)) tok = Some req \<and> step e s = Some s' \<longrightarrow>
         tok \<notin> keys (active_session_tokens (the_server s))
         \<and> (map_of (latent_session_tokens (the_server s')) tok = Some req
            \<or> (\<exists>ws. e = WsResume ws Resume
                  \<and> map_of (coroutines s) ws = Some (tok, AtAccept))))"
proof -
  have ok: "tokens_ok s"
    using tokens_ok_run [OF tokens_ok_init assms] .
  then have disj: "keys (latent_session_tokens (the_server s))
           \<inter> keys (active_session_tokens (the_server s)) = {}"
    by (simp add: tokens_ok_def)
  have popped: "tok \<notin> keys (latent_session_tokens (fst (lookup_session_token srv ws tok)))"
    using lookup_latent [of srv ws tok] keys_map_of [of "latent_session_tokens (fst (lookup_session_token srv ws tok))" tok]
    by simp
  have reg: "active_session_tokens (fst (serve_index srv None tok req)) = active_session_tokens srv
    \<and> map_of (latent_session_tokens (fst (serve_index srv None tok req))) tok = Some req"
    by (simp add: serve_index_def update_conv')
  have ins: "map_of (active_session_tokens
          (fst (create_session_from_websocket srv tok req (SessionCreated new)))) tok
        = Some (next_sid srv)"
    by (simp add: create_session_from_websocket_def Let_def update_conv')
  have until: "map_of (latent_session_tokens (the_server s)) tok = Some req \<and> step e s = Some s' \<longrightarrow>
         tok \<notin> keys (active_session_tokens (the_server s))
         \<and> (map_of (latent_session_tokens (the_server s')) tok = Some req
            \<or> (\<exists>ws. e = WsResume ws Resume
                  \<and> map_of (coroutines s) ws = Some (tok, AtAccept)))"
    using latent_kept [OF ok, of e s' tok req] disj map_of_keys [of "latent_session_tokens (the_server s)" tok req]
    by blast
  show ?thesis
    using disj popped reg ins until lookup_active [of srv ws tok] create_latent [of srv tok req]
    by simp
qed

theorem token_in_at_most_one_map_witness:
  "\<exists>s. run [HttpIndex None ''t1'' \<lparr>request_url = ''/'', request_client = Some (''::1'', 5000)\<rparr>,
            HttpIndex None ''t2'' \<lparr>request_url = ''/'', request_client = Some (''::1'', 5001)\<rparr>,
            WsConnect 0 ''t1'', WsResume 0 Resume,
            WsResume 0 (SessionCreated unallocated_session)] init_system = Some s
       \<and> keys (latent_session_tokens (the_server s)) = {''t2''}
       \<and> keys (active_session_tokens (the_server s)) = {''t1''}
       \<and> keys (latent_session_tokens (the_server s))
           \<inter> keys (active_session_tokens (the_server s)) = {}"
proof -
  define s where "s = the (run [HttpIndex None ''t1'' \<lparr>request_url = ''/'', request_client = Some (''::1'', 5000)\<rparr>,
            HttpIndex None ''t2'' \<lparr>request_url = ''/'', request_client = Some (''::1'', 5001)\<rparr>,
            WsConnect 0 ''t1'', WsResume 0 Resume,
            WsResume 0 (SessionCreated unallocated_session)] init_system)"
  have r: "run [HttpIndex None ''t1'' \<lparr>request_url = ''/'', request_client = Some (''::1'', 5000)\<rparr>,
            HttpIndex None ''t2'' \<lparr>request_url = ''/'', request_client = Some (''::1'', 5001)\<rparr>,
            WsConnect 0 ''t1'', WsResume 0 Resume,
            WsResume 0 (SessionCreated unallocated_session)] init_system = Some s"
    unfolding s_def by (simp add: run_defs)
  have l: "keys (latent_session_tokens (the_server s)) = {''t2''}"
    unfolding s_def by (simp add: run_defs)
  have a: "keys (active_session_tokens (the_server s)) = {''t1''}"
    unfolding s_def by (simp add: run_defs)
  from token_in_at_most_one_map [OF r] l a r show ?thesis
    by blast
qed

subsection \<open>The websocket handler\<close>

text \<open>
  C2. When the handler, having accepted the socket, finds the session token in neither
  the latent nor the active map, it closes the socket with code 3000 and the reason
  \<^verbatim>\<open>Invalid session token.\<close> and returns; the server is exactly as before, so no
  session was created and neither map has changed.
\<close>

theorem unknown_token_is_refused:
  assumes "map_of (latent_session_tokens srv) tok = None"
    and "map_of (active_session_tokens srv) tok = None"
  shows "serve_websocket_step srv ws tok AtAccept Resume =
           (srv, Returned, [WebsocketClose ws 3000 ''Invalid session token.''])
         \<and> lookup_session_token srv ws tok =
           (srv, Returned, [WebsocketClose ws 3000 ''Invalid session token.''])
         \<and> (can_create_new_sessions srv \<longrightarrow>
              serve_websocket_start srv ws = (AtAccept, [WebsocketAccept ws]))"
  using assms
  by (simp add: serve_websocket_step_def lookup_session_token_def serve_websocket_start_def)

theorem unknown_token_is_refused_witness:
  "\<exists>s. run [HttpIndex None ''t1'' \<lparr>request_url = ''/'', request_client = Some (''::1'', 5000)\<rparr>,
            HttpIndex None ''t2'' \<lparr>request_url = ''/'', request_client = Some (''::1'', 5001)\<rparr>,
            WsConnect 0 ''t1'', WsResume 0 Resume,
            WsResume 0 (SessionCreated unallocated_session)] init_system = Some s
       \<and> map_of (latent_session_tokens (the_server s)) ''bogus'' = None
       \<and> map_of (active_session_tokens (the_server s)) ''bogus'' = None
       \<and> can_create_new_sessions (the_server s)
       \<and> serve_websocket_start (the_server s) 7 = (AtAccept, [WebsocketAccept 7])
       \<and> serve_websocket_step (the_server s) 7 ''bogus'' AtAccept Resume =
           (the_server s, Returned, [WebsocketClose 7 3000 ''Invalid session token.''])"
proof -
  define s where "s = the (run [HttpIndex None ''t1'' \<lparr>request_url = ''/'', request_client = Some (''::1'', 5000)\<rparr>,
            HttpIndex None ''t2'' \<lparr>request_url = ''/'', request_client = Some (''::1'', 5001)\<rparr>,
            WsConnect 0 ''t1'', WsResume 0 Resume,
            WsResume 0 (SessionCreated unallocated_session)] init_system)"
  have r: "run [HttpIndex None ''t1'' \<lparr>request_url = ''/'', request_client = Some (''::1'', 5000)\<rparr>,
            HttpIndex None ''t2'' \<lparr>request_url = ''/'', request_client = Some (''::1'', 5001)\<rparr>,
            WsConnect 0 ''t1'', WsResume 0 Resume,
            WsResume 0 (SessionCreated unallocated_session)] init_system = Some s"
    unfolding s_def by (simp add: run_defs)
  have l: "map_of (latent_session_tokens (the_server s)) ''bogus'' = None"
    unfolding s_def by (simp add: run_defs)
  have a: "map_of (active_session_tokens (the_server s)) ''bogus'' = None"
    unfolding s_def by (simp add: run_defs)
  have g: "can_create_new_sessions (the_server s)"
    unfolding s_def by (simp add: run_defs)
  from unknown_token_is_refused [OF l a, of 7] r l a g show ?thesis by blast
qed

text \<open>
  C3, as the code has it. A handler that is called while the gate is closed waits at
  the gate: it has not accepted the socket, has closed nothing and has looked up no
  token; calling it leaves the server as it is, and the coroutine cannot go on before
  the event is set. Setting the event wakes it, with both maps as they were, and it
  then accepts the socket and goes on to the token lookup like a handler that found the
  gate open.
\<close>

theorem closed_gate_suspends_upgrade:
  "(\<not> can_create_new_sessions srv \<longrightarrow> serve_websocket_start srv ws = (AtGateWait, []))
   \<and> (can_create_new_sessions srv \<longrightarrow>
        serve_websocket_start srv ws = (AtAccept, [WebsocketAccept ws]))
   \<and> \<not> can_create_new_sessions (disable_new_session_creation srv)
   \<and> can_create_new_sessions (enable_new_session_creation srv)
   \<and> (step (WsConnect ws tok) s = Some s' \<longrightarrow> the_server s' = the_server s)
   \<and> (map_of (coroutines s) ws = Some (tok, AtGateWait) \<and> ws \<notin> set (woken s) \<longrightarrow>
        step (WsResume ws i) s = None)
   \<and> (map_of (coroutines s) ws = Some (tok, AtGateWait) \<longrightarrow>
        (\<exists>s''. step EnableNewSessions s = Some s'' \<and> ws \<in> set (woken s'')
           \<and> coroutines s'' = coroutines s
           \<and> latent_session_tokens (the_server s'') = latent_session_tokens (the_server s)
           \<and> active_session_tokens (the_server s'') = active_session_tokens (the_server s)))
   \<and> serve_websocket_step srv ws tok AtGateWait Resume = (srv, AtAccept, [WebsocketAccept ws])"
proof -
  have wake: "map_of (coroutines s) ws = Some (tok, AtGateWait) \<Longrightarrow>
      ws \<in> set (map fst (filter (\<lambda>c. snd (snd c) = AtGateWait) (coroutines s)))"
    by (force dest: map_of_SomeD)
  show ?thesis
    using wake
    by (auto simp: serve_websocket_start_def disable_new_session_creation_def
        enable_new_session_creation_def step_def serve_websocket_step_def split: if_splits)
qed

theorem closed_gate_suspends_upgrade_witness:
  "\<exists>s. run [HttpIndex None ''t1'' \<lparr>request_url = ''/'', request_client = Some (''::1'', 5000)\<rparr>,
            DisableNewSessions, WsConnect 0 ''t1''] init_system = Some s
       \<and> \<not> can_create_new_sessions (the_server s)
       \<and> serve_websocket_start (the_server s) 0 = (AtGateWait, [])
       \<and> map_of (coroutines s) 0 = Some (''t1'', AtGateWait)
       \<and> 0 \<notin> set (woken s)
       \<and> step (WsResume 0 Resume) s = None
       \<and> map_of (latent_session_tokens (the_server s)) ''t1''
           = Some \<lparr>request_url = ''/'', request_client = Some (''::1'', 5000)\<rparr>
       \<and> (\<exists>s''. step EnableNewSessions s = Some s'' \<and> 0 \<in> set (woken s''))
       \<and> can_create_new_sessions init_server
       \<and> serve_websocket_start init_server 0 = (AtAccept, [WebsocketAccept 0])"
proof -
  define s where "s = the (run [HttpIndex None ''t1'' \<lparr>request_url = ''/'', request_client = Some (''::1'', 5000)\<rparr>,
            DisableNewSessions, WsConnect 0 ''t1''] init_system)"
  have r: "run [HttpIndex None ''t1'' \<lparr>request_url = ''/'', request_client = Some (''::1'', 5000)\<rparr>,
            DisableNewSessions, WsConnect 0 ''t1''] init_system = Some s"
    unfolding s_def by (simp add: run_defs)
  have closed: "\<not> can_create_new_sessions (the_server s)"
    unfolding s_def by (simp add: run_defs)
  have co: "map_of (coroutines s) 0 = Some (''t1'', AtGateWait)"
    unfolding s_def by (simp add: run_defs)
  have nw: "0 \<notin> set (woken s)"
    unfolding s_def by (simp add: run_defs)
  have lat: "map_of (latent_session_tokens (the_server s)) ''t1''
           = Some \<lparr>request_url = ''/'', request_client = Some (''::1'', 5000)\<rparr>"
    unfolding s_def by (simp add: run_defs)
  have op: "can_create_new_sessions init_server"
    by (simp add: init_server_def)
  from closed_gate_suspends_upgrade [of "the_server s" 0 "''t1''" s s Resume]
    closed_gate_suspends_upgrade [of init_server 0 "''t1''" s s Resume]
    r closed co nw lat op
  show ?thesis by blast
qed

text \<open>
  C3, as the claim states it, fails: with the gate closed the handler produces no
  accept and no close on the socket, and once the gate is opened again the same
  connection goes through the lookup and the creation of its session and ends up
  serving.
\<close>

theorem closed_gate_counterexample:
  "\<not> (\<forall>srv ws. \<not> can_create_new_sessions srv \<longrightarrow>
         (\<exists>code reason. WebsocketAccept ws \<in> set (snd (serve_websocket_start srv ws))
            \<and> WebsocketClose ws code reason \<in> set (snd (serve_websocket_start srv ws))))
   \<and> \<not> can_create_new_sessions (disable_new_session_creation init_server)
   \<and> serve_websocket_start (disable_new_session_creation init_server) 0 = (AtGateWait, [])
   \<and> (\<exists>s. run [HttpIndex None ''t1'' \<lparr>request_url = ''/'', request_client = Some (''::1'', 5000)\<rparr>,
               DisableNewSessions, WsConnect 0 ''t1'', EnableNewSessions,
               WsResume 0 Resume, WsResume 0 Resume,
               WsResume 0 (SessionCreated unallocated_session)] init_system = Some s
          \<and> map_of (coroutines s) 0 = Some (''t1'', AtServe 0)
          \<and> map_of (active_session_tokens (the_server s)) ''t1'' = Some 0)"
proof -
  have closed: "\<not> can_create_new_sessions (disable_new_session_creation init_server)"
    by (simp add: disable_new_session_creation_def)
  have start: "serve_websocket_start (disable_new_session_creation init_server) 0 = (AtGateWait, [])"
    by (simp add: serve_websocket_start_def disable_new_session_creation_def)
  have neg: "\<not> (\<forall>srv ws. \<not> can_create_new_sessions srv \<longrightarrow>
         (\<exists>code reason. WebsocketAccept ws \<in> set (snd (serve_websocket_start srv ws))
            \<and> WebsocketClose ws code reason \<in> set (snd (serve_websocket_start srv ws))))"
  proof
    assume "\<forall>srv ws. \<not> can_create_new_sessions srv \<longrightarrow>
         (\<exists>code reason. WebsocketAccept ws \<in> set (snd (serve_websocket_start srv ws))
            \<and> WebsocketClose ws code reason \<in> set (snd (serve_websocket_start srv ws)))"
    then have "\<exists>code reason. WebsocketAccept 0
          \<in> set (snd (serve_websocket_start (disable_new_session_creation init_server) 0))
        \<and> WebsocketClose 0 code reason
          \<in> set (snd (serve_websocket_start (disable_new_session_creation init_server) 0))"
      using closed by blast
    then show False by (simp add: start)
  qed
  have later: "\<exists>s. run [HttpIndex None ''t1'' \<lparr>request_url = ''/'', request_client = Some (''::1'', 5000)\<rparr>,
               DisableNewSessions, WsConnect 0 ''t1'', EnableNewSessions,
               WsResume 0 Resume, WsResume 0 Resume,
               WsResume 0 (SessionCreated unallocated_session)] init_system = Some s
          \<and> map_of (coroutines s) 0 = Some (''t1'', AtServe 0)
          \<and> map_of (active_session_tokens (the_server s)) ''t1'' = Some 0"
    by (simp add: run_defs)
  from neg closed start later show ?thesis by blast
qed

text \<open>
  C4. When the token is not in the latent map and the active map holds a session for
  it, the handler goes on to serve that very session: no session is allocated, the
  active map is unchanged, the is-active event of the session is set, and a task that
  sends all components to the reconnected client is started.
\<close>

theorem reconnect_resumes_same_session:
  assumes "map_of (latent_session_tokens srv) tok = None"
    and "map_of (active_session_tokens srv) tok = Some sess"
  shows "serve_websocket_step srv ws tok AtAccept Resume =
           (srv\<lparr>session_store := (session_store srv)
                   (sess := (session_store srv sess)\<lparr>is_active_event := True\<rparr>)\<rparr>,
            AtServe sess,
            [CreateTaskSendAllComponents sess, SessionServe sess])
         \<and> next_sid (fst (serve_websocket_step srv ws tok AtAccept Resume)) = next_sid srv
         \<and> active_session_tokens (fst (serve_websocket_step srv ws tok AtAccept Resume))
             = active_session_tokens srv
         \<and> is_active_event
             (session_store (fst (serve_websocket_step srv ws tok AtAccept Resume)) sess)"
  using assms
  by (simp add: serve_websocket_step_def lookup_session_token_def)

theorem reconnect_resumes_same_session_witness:
  "\<exists>s. run [HttpIndex None ''t1'' \<lparr>request_url = ''/'', request_client = Some (''::1'', 5000)\<rparr>,
            WsConnect 0 ''t1'', WsResume 0 Resume,
            WsResume 0 (SessionCreated unallocated_session),
            WsResume 0 (Failed (WebSocketDisconnect 1006))] init_system = Some s
       \<and> map_of (latent_session_tokens (the_server s)) ''t1'' = None
       \<and> map_of (active_session_tokens (the_server s)) ''t1'' = Some 0
       \<and> \<not> is_active_event (session_store (the_server s) 0)
       \<and> snd (serve_websocket_step (the_server s) 1 ''t1'' AtAccept Resume)
           = (AtServe 0, [CreateTaskSendAllComponents 0, SessionServe 0])
       \<and> next_sid (fst (serve_websocket_step (the_server s) 1 ''t1'' AtAccept Resume)) = 1
       \<and> is_active_event
           (session_store (fst (serve_websocket_step (the_server s) 1 ''t1'' AtAccept Resume)) 0)"
proof -
  define s where "s = the (run [HttpIndex None ''t1'' \<lparr>request_url = ''/'', request_client = Some (''::1'', 5000)\<rparr>,
            WsConnect 0 ''t1'', WsResume 0 Resume,
            WsResume 0 (SessionCreated unallocated_session),
            WsResume 0 (Failed (WebSocketDisconnect 1006))] init_system)"
  have r: "run [HttpIndex None ''t1'' \<lparr>request_url = ''/'', request_client = Some (''::1'', 5000)\<rparr>,
            WsConnect 0 ''t1'', WsResume 0 Resume,
            WsResume 0 (SessionCreated unallocated_session),
            WsResume 0 (Failed (WebSocketDisconnect 1006))] init_system = Some s"
    unfolding s_def by (simp add: run_defs)
  have l: "map_of (latent_session_tokens (the_server s)) ''t1'' = None"
    unfolding s_def by (simp add: run_defs)
  have a: "map_of (active_session_tokens (the_server s)) ''t1'' = Some 0"
    unfolding s_def by (simp add: run_defs)
  have e: "\<not> is_active_event (session_store (the_server s) 0)"
    unfolding s_def by (simp add: run_defs)
  have n: "next_sid (the_server s) = 1"
    unfolding s_def by (simp add: run_defs)
  from reconnect_resumes_same_session [OF l a, of 1] r l a e n show ?thesis by simp
qed

text \<open>
  C8. When \<^verbatim>\<open>sess.serve()\<close> ends with a disconnect of code 1001, the handler calls
  \<^verbatim>\<open>close()\<close> on the session, after which (closing as the spec describes it) the
  session is in the active map no more. When it ends with a disconnect of another
  code, with a cancellation or with another exception, \<^verbatim>\<open>close()\<close> is not called. In
  every case the handler leaves the active map as it is, sets the socket of the session
  to \<^verbatim>\<open>None\<close> and clears its is-active event.
\<close>

theorem disconnect_closes_or_retains:
  "serve_ended srv sess (Failed (WebSocketDisconnect 1001)) =
     (clear_connection srv sess, Returned, [SessionClose sess])
   \<and> sess \<notin> snd ` set (active_session_tokens (session_close (clear_connection srv sess) sess))
   \<and> (code \<noteq> 1001 \<longrightarrow>
        serve_ended srv sess (Failed (WebSocketDisconnect code)) =
          (clear_connection srv sess, Returned, []))
   \<and> serve_ended srv sess (Failed CancelledError) = (clear_connection srv sess, Returned, [])
   \<and> (e \<noteq> CancelledError \<and> (\<forall>c. e \<noteq> WebSocketDisconnect c) \<longrightarrow>
        serve_ended srv sess (Failed e) = (clear_connection srv sess, Raised e, []))
   \<and> active_session_tokens (clear_connection srv sess) = active_session_tokens srv
   \<and> websocket (session_store (clear_connection srv sess) sess) = None
   \<and> \<not> is_active_event (session_store (clear_connection srv sess) sess)"
  by (cases e) (auto simp: serve_ended_def clear_connection_def session_close_def)

theorem disconnect_closes_or_retains_witness:
  "\<exists>s. run [HttpIndex None ''t1'' \<lparr>request_url = ''/'', request_client = Some (''::1'', 5000)\<rparr>,
            WsConnect 0 ''t1'', WsResume 0 Resume,
            WsResume 0 (SessionCreated
              \<lparr>websocket = Some 0, is_active_event = True, last_interaction_timestamp = 5,
               session_token = []\<rparr>)] init_system = Some s
       \<and> map_of (active_session_tokens (the_server s)) ''t1'' = Some 0
       \<and> websocket (session_store (the_server s) 0) = Some 0
       \<and> is_active_event (session_store (the_server s) 0)
       \<and> (1006 :: int) \<noteq> 1001
       \<and> serve_ended (the_server s) 0 (Failed (WebSocketDisconnect 1006))
           = (clear_connection (the_server s) 0, Returned, [])
       \<and> map_of (active_session_tokens (clear_connection (the_server s) 0)) ''t1'' = Some 0
       \<and> websocket (session_store (clear_connection (the_server s) 0) 0) = None
       \<and> \<not> is_active_event (session_store (clear_connection (the_server s) 0) 0)
       \<and> serve_ended (the_server s) 0 (Failed (OtherError ''boom''))
           = (clear_connection (the_server s) 0, Raised (OtherError ''boom''), [])
       \<and> serve_ended (the_server s) 0 (Failed (WebSocketDisconnect 1001))
           = (clear_connection (the_server s) 0, Returned, [SessionClose 0])
       \<and> map_of (active_session_tokens (session_close (clear_connection (the_server s) 0) 0)) ''t1''
           = None"
proof -
  define s where "s = the (run [HttpIndex None ''t1'' \<lparr>request_url = ''/'', request_client = Some (''::1'', 5000)\<rparr>,
            WsConnect 0 ''t1'', WsResume 0 Resume,
            WsResume 0 (SessionCreated
              \<lparr>websocket = Some 0, is_active_event = True, last_interaction_timestamp = 5,
               session_token = []\<rparr>)] init_system)"
  have r: "run [HttpIndex None ''t1'' \<lparr>request_url = ''/'', request_client = Some (''::1'', 5000)\<rparr>,
            WsConnect 0 ''t1'', WsResume 0 Resume,
            WsResume 0 (SessionCreated
              \<lparr>websocket = Some 0, is_active_event = True, last_interaction_timestamp = 5,
               session_token = []\<rparr>)] init_system = Some s"
    unfolding s_def by (simp add: run_defs)
  have a: "active_session_tokens (the_server s) = [(''t1'', 0)]"
    unfolding s_def by (simp add: run_defs)
  have w: "websocket (session_store (the_server s) 0) = Some 0"
    unfolding s_def by (simp add: run_defs)
  have e: "is_active_event (session_store (the_server s) 0)"
    unfolding s_def by (simp add: run_defs)
  have gone: "map_of (active_session_tokens (session_close (clear_connection (the_server s) 0) 0)) ''t1''
           = None"
    by (simp add: session_close_def clear_connection_def a)
  from disconnect_closes_or_retains [of "the_server s" 0 1006 "OtherError ''boom''"] r a w e gone
  show ?thesis by simp
qed

subsection \<open>Shutdown\<close>

lemma print_exceptions_set:
  "set (print_exceptions rs) = PrintException ` {e. Some e \<in> set rs}"
proof (induction rs)
  case Nil
  then show ?case by simp
next
  case (Cons r rs)
  then show ?case by (cases r) auto
qed

lemma print_exceptions_only:
  "x \<in> set (print_exceptions rs) \<Longrightarrow> \<exists>e. x = PrintException e"
  by (auto simp: print_exceptions_set)

lemma call_on_app_close_calls:
  "CallOnAppClose \<in> set (fst (call_on_app_close (Some h)))"
  by (cases h) (simp_all add: call_on_app_close_def)

lemma gather_all:
  "\<forall>s\<in>set ss. \<forall>e. close_result s = Some e \<longrightarrow> \<not> stops_loop e \<Longrightarrow>
     gather close_result ss = (ss, Inr (map close_result ss))"
  by (induction ss) (auto split: option.splits)

lemma gather_stopped:
  "\<exists>s\<in>set ss. \<exists>e. close_result s = Some e \<and> stops_loop e \<Longrightarrow>
     \<exists>started e. gather close_result ss = (started, Inl e) \<and> stops_loop e"
proof (induction ss)
  case Nil
  then show ?case by simp
next
  case (Cons s ss)
  show ?case
  proof (cases "\<exists>e. close_result s = Some e \<and> stops_loop e")
    case True
    then show ?thesis by auto
  next
    case False
    with Cons.prems have "\<exists>s\<in>set ss. \<exists>e. close_result s = Some e \<and> stops_loop e"
      by auto
    from Cons.IH [OF this] obtain started e
      where "gather close_result ss = (started, Inl e)" "stops_loop e" by blast
    with False show ?thesis by (auto split: option.splits)
  qed
qed

text \<open>
  C9, as the code has it. When no teardown raises \<^verbatim>\<open>SystemExit\<close> or
  \<^verbatim>\<open>KeyboardInterrupt\<close>: the teardown of every session of the active map runs, there is
  one result per session, the exceptions printed are exactly those the teardowns
  raised, none of them leaves the shutdown (what leaves it is what the close hook lets
  through, the same as when no teardown fails), and the close hook of the app, when
  there is one, is called, after every teardown and every print. When a teardown raises
  \<^verbatim>\<open>SystemExit\<close> or \<^verbatim>\<open>KeyboardInterrupt\<close>, that exception is not collected: the
  shutdown ends with it, nothing is printed and the close hook is not called.
\<close>

theorem shutdown_closes_every_session:
  "((\<forall>s\<in>snd ` set (active_session_tokens srv). \<forall>e. close_result s = Some e \<longrightarrow> \<not> stops_loop e)
     \<longrightarrow>
       fst (lifespan_shutdown srv close_result hook) =
         (LogClosingSessions (length (active_session_tokens srv))
            # map SessionCloseAwaited (map snd (active_session_tokens srv))
            @ print_exceptions (map close_result (map snd (active_session_tokens srv))))
         @ fst (call_on_app_close hook)
       \<and> SessionCloseAwaited ` snd ` set (active_session_tokens srv)
           \<subseteq> set (fst (lifespan_shutdown srv close_result hook))
       \<and> gather close_result (map snd (active_session_tokens srv))
           = (map snd (active_session_tokens srv),
              Inr (map close_result (map snd (active_session_tokens srv))))
       \<and> set (print_exceptions (map close_result (map snd (active_session_tokens srv))))
           = PrintException ` {e. Some e \<in> close_result ` snd ` set (active_session_tokens srv)}
       \<and> snd (lifespan_shutdown srv close_result hook) = snd (call_on_app_close hook)
       \<and> snd (lifespan_shutdown srv close_result hook)
           = snd (lifespan_shutdown srv (\<lambda>s. None) hook)
       \<and> snd (lifespan_shutdown srv close_result None) = None
       \<and> snd (lifespan_shutdown srv close_result (Some HookReturns)) = None
       \<and> snd (lifespan_shutdown srv close_result (Some (HookRaisesException x))) = None
       \<and> CallOnAppClose \<in> set (fst (lifespan_shutdown srv close_result (Some h)))
       \<and> CallOnAppClose \<notin> set (LogClosingSessions (length (active_session_tokens srv))
            # map SessionCloseAwaited (map snd (active_session_tokens srv))
            @ print_exceptions (map close_result (map snd (active_session_tokens srv)))))
   \<and> ((\<exists>s\<in>snd ` set (active_session_tokens srv). \<exists>e. close_result s = Some e \<and> stops_loop e)
     \<longrightarrow>
       (\<exists>e. stops_loop e \<and> snd (lifespan_shutdown srv close_result hook) = Some e)
       \<and> CallOnAppClose \<notin> set (fst (lifespan_shutdown srv close_result hook))
       \<and> (\<forall>e. PrintException e \<notin> set (fst (lifespan_shutdown srv close_result hook))))"
proof (intro conjI impI)
  assume ok: "\<forall>s\<in>snd ` set (active_session_tokens srv).
      \<forall>e. close_result s = Some e \<longrightarrow> \<not> stops_loop e"
  then have "\<forall>s\<in>set (map snd (active_session_tokens srv)).
      \<forall>e. close_result s = Some e \<longrightarrow> \<not> stops_loop e"
    by simp
  note g = gather_all [OF this]
  have g0: "gather (\<lambda>s. None) (map snd (active_session_tokens srv))
      = (map snd (active_session_tokens srv),
         Inr (map (\<lambda>s. None) (map snd (active_session_tokens srv))))"
    by (rule gather_all) simp
  show "fst (lifespan_shutdown srv close_result hook) =
         (LogClosingSessions (length (active_session_tokens srv))
            # map SessionCloseAwaited (map snd (active_session_tokens srv))
            @ print_exceptions (map close_result (map snd (active_session_tokens srv))))
         @ fst (call_on_app_close hook)"
    by (simp add: lifespan_shutdown_def g)
  show "SessionCloseAwaited ` snd ` set (active_session_tokens srv)
           \<subseteq> set (fst (lifespan_shutdown srv close_result hook))"
    by (auto simp: lifespan_shutdown_def g)
  show "gather close_result (map snd (active_session_tokens srv))
           = (map snd (active_session_tokens srv),
              Inr (map close_result (map snd (active_session_tokens srv))))"
    by (rule g)
  show "set (print_exceptions (map close_result (map snd (active_session_tokens srv))))
           = PrintException ` {e. Some e \<in> close_result ` snd ` set (active_session_tokens srv)}"
    by (auto simp: print_exceptions_set)
  show "snd (lifespan_shutdown srv close_result hook) = snd (call_on_app_close hook)"
    by (simp add: lifespan_shutdown_def g)
  show "snd (lifespan_shutdown srv close_result hook)
           = snd (lifespan_shutdown srv (\<lambda>s. None) hook)"
    by (simp add: lifespan_shutdown_def g g0)
  show "snd (lifespan_shutdown srv close_result None) = None"
    by (simp add: lifespan_shutdown_def g call_on_app_close_def)
  show "snd (lifespan_shutdown srv close_result (Some HookReturns)) = None"
    by (simp add: lifespan_shutdown_def g call_on_app_close_def)
  show "snd (lifespan_shutdown srv close_result (Some (HookRaisesException x))) = None"
    by (simp add: lifespan_shutdown_def g call_on_app_close_def)
  show "CallOnAppClose \<in> set (fst (lifespan_shutdown srv close_result (Some h)))"
    using call_on_app_close_calls [of h] by (simp add: lifespan_shutdown_def g)
  show "CallOnAppClose \<notin> set (LogClosingSessions (length (active_session_tokens srv))
            # map SessionCloseAwaited (map snd (active_session_tokens srv))
            @ print_exceptions (map close_result (map snd (active_session_tokens srv))))"
    by (auto simp: print_exceptions_set)
next
  assume "\<exists>s\<in>snd ` set (active_session_tokens srv). \<exists>e. close_result s = Some e \<and> stops_loop e"
  then have "\<exists>s\<in>set (map snd (active_session_tokens srv)).
      \<exists>e. close_result s = Some e \<and> stops_loop e"
    by simp
  from gather_stopped [OF this] obtain started e
    where g: "gather close_result (map snd (active_session_tokens srv)) = (started, Inl e)"
      and e: "stops_loop e" by blast
  show "\<exists>e. stops_loop e \<and> snd (lifespan_shutdown srv close_result hook) = Some e"
    using e by (auto simp: lifespan_shutdown_def g)
  show "CallOnAppClose \<notin> set (fst (lifespan_shutdown srv close_result hook))"
    by (auto simp: lifespan_shutdown_def g)
  show "\<forall>e. PrintException e \<notin> set (fst (lifespan_shutdown srv close_result hook))"
    by (auto simp: lifespan_shutdown_def g)
qed

theorem shutdown_closes_every_session_witness:
  "\<exists>s. run [HttpIndex None ''t1'' \<lparr>request_url = ''/'', request_client = Some (''::1'', 5000)\<rparr>,
            HttpIndex None ''t2'' \<lparr>request_url = ''/'', request_client = Some (''::1'', 5001)\<rparr>,
            WsConnect 0 ''t1'', WsResume 0 Resume,
            WsResume 0 (SessionCreated
              \<lparr>websocket = Some 0, is_active_event = True, last_interaction_timestamp = 5,
               session_token = []\<rparr>),
            WsConnect 1 ''t2'', WsResume 1 Resume,
            WsResume 1 (SessionCreated
              \<lparr>websocket = Some 1, is_active_event = True, last_interaction_timestamp = 6,
               session_token = []\<rparr>)] init_system = Some s
       \<and> map snd (active_session_tokens (the_server s)) = [0, 1]
       \<and> \<not> stops_loop CancelledError
       \<and> lifespan_shutdown (the_server s) (\<lambda>sess. if sess = 1 then Some CancelledError else None)
             (Some HookReturns)
           = ([LogClosingSessions 2, SessionCloseAwaited 0, SessionCloseAwaited 1,
               PrintException CancelledError, LogDebug ''Calling `on_app_close`'',
               CallOnAppClose], None)
       \<and> stops_loop KeyboardInterrupt
       \<and> snd (lifespan_shutdown (the_server s)
               (\<lambda>sess. if sess = 1 then Some KeyboardInterrupt else None) (Some HookReturns))
           \<in> {Some SystemExit, Some KeyboardInterrupt}
       \<and> CallOnAppClose \<notin> set (fst (lifespan_shutdown (the_server s)
               (\<lambda>sess. if sess = 1 then Some KeyboardInterrupt else None) (Some HookReturns)))
       \<and> PrintException KeyboardInterrupt \<notin> set (fst (lifespan_shutdown (the_server s)
               (\<lambda>sess. if sess = 1 then Some KeyboardInterrupt else None) (Some HookReturns)))"
proof -
  define s where "s = the (run [HttpIndex None ''t1'' \<lparr>request_url = ''/'', request_client = Some (''::1'', 5000)\<rparr>,
            HttpIndex None ''t2'' \<lparr>request_url = ''/'', request_client = Some (''::1'', 5001)\<rparr>,
            WsConnect 0 ''t1'', WsResume 0 Resume,
            WsResume 0 (SessionCreated
              \<lparr>websocket = Some 0, is_active_event = True, last_interaction_timestamp = 5,
               session_token = []\<rparr>),
            WsConnect 1 ''t2'', WsResume 1 Resume,
            WsResume 1 (SessionCreated
              \<lparr>websocket = Some 1, is_active_event = True, last_interaction_timestamp = 6,
               session_token = []\<rparr>)] init_system)"
  have r: "run [HttpIndex None ''t1'' \<lparr>request_url = ''/'', request_client = Some (''::1'', 5000)\<rparr>,
            HttpIndex None ''t2'' \<lparr>request_url = ''/'', request_client = Some (''::1'', 5001)\<rparr>,
            WsConnect 0 ''t1'', WsResume 0 Resume,
            WsResume 0 (SessionCreated
              \<lparr>websocket = Some 0, is_active_event = True, last_interaction_timestamp = 5,
               session_token = []\<rparr>),
            WsConnect 1 ''t2'', WsResume 1 Resume,
            WsResume 1 (SessionCreated
              \<lparr>websocket = Some 1, is_active_event = True, last_interaction_timestamp = 6,
               session_token = []\<rparr>)] init_system = Some s"
    unfolding s_def by (simp add: run_defs)
  have a: "active_session_tokens (the_server s) = [(''t1'', 0), (''t2'', 1)]"
    unfolding s_def by (simp add: run_defs)
  have ok: "\<forall>x\<in>snd ` set (active_session_tokens (the_server s)).
      \<forall>e. (if x = 1 then Some CancelledError else None) = Some e \<longrightarrow> \<not> stops_loop e"
    by (simp add: a stops_loop_def)
  have stop: "\<exists>x\<in>snd ` set (active_session_tokens (the_server s)).
      \<exists>e. (if x = 1 then Some KeyboardInterrupt else None) = Some e \<and> stops_loop e"
    by (simp add: a stops_loop_def)
  note collected = shutdown_closes_every_session
    [where srv = "the_server s" and hook = "Some HookReturns"
       and close_result = "\<lambda>sess. if sess = 1 then Some CancelledError else None",
     THEN conjunct1, THEN mp, OF ok]
  note stopped = shutdown_closes_every_session
    [where srv = "the_server s" and hook = "Some HookReturns"
       and close_result = "\<lambda>sess. if sess = 1 then Some KeyboardInterrupt else None",
     THEN conjunct2, THEN mp, OF stop]
  have c1: "lifespan_shutdown (the_server s) (\<lambda>sess. if sess = 1 then Some CancelledError else None)
             (Some HookReturns)
           = ([LogClosingSessions 2, SessionCloseAwaited 0, SessionCloseAwaited 1,
               PrintException CancelledError, LogDebug ''Calling `on_app_close`'',
               CallOnAppClose], None)"
    using collected by (simp add: a call_on_app_close_def prod_eq_iff)
  have c2: "snd (lifespan_shutdown (the_server s)
               (\<lambda>sess. if sess = 1 then Some KeyboardInterrupt else None) (Some HookReturns))
           \<in> {Some SystemExit, Some KeyboardInterrupt}"
    using stopped by (auto simp: stops_loop_def)
  show ?thesis
    using r a c1 c2 stopped by (simp add: stops_loop_def)
qed

text \<open>
  C9, as the claim states it, fails: with two active sessions, when the teardown of the
  first raises \<^verbatim>\<open>SystemExit\<close>, the exception is not collected or printed but leaves the
  shutdown, and the close hook of the app is not called, though called it returns.
\<close>

theorem shutdown_counterexample:
  "\<not> (\<forall>srv close_result h.
        snd (lifespan_shutdown srv close_result (Some h)) = snd (call_on_app_close (Some h))
        \<and> CallOnAppClose \<in> set (fst (lifespan_shutdown srv close_result (Some h))))
   \<and> (\<exists>s. run [HttpIndex None ''t1'' \<lparr>request_url = ''/'', request_client = Some (''::1'', 5000)\<rparr>,
            HttpIndex None ''t2'' \<lparr>request_url = ''/'', request_client = Some (''::1'', 5001)\<rparr>,
            WsConnect 0 ''t1'', WsResume 0 Resume,
            WsResume 0 (SessionCreated
              \<lparr>websocket = Some 0, is_active_event = True, last_interaction_timestamp = 5,
               session_token = []\<rparr>),
            WsConnect 1 ''t2'', WsResume 1 Resume,
            WsResume 1 (SessionCreated
              \<lparr>websocket = Some 1, is_active_event = True, last_interaction_timestamp = 6,
               session_token = []\<rparr>)] init_system = Some s
       \<and> map snd (active_session_tokens (the_server s)) = [0, 1]
       \<and> lifespan_shutdown (the_server s) (\<lambda>sess. if sess = 0 then Some SystemExit else None)
             (Some HookReturns)
           = ([LogClosingSessions 2, SessionCloseAwaited 0], Some SystemExit)
       \<and> call_on_app_close (Some HookReturns)
           = ([LogDebug ''Calling `on_app_close`'', CallOnAppClose], None))"
proof -
  define s where "s = the (run [HttpIndex None ''t1'' \<lparr>request_url = ''/'', request_client = Some (''::1'', 5000)\<rparr>,
            HttpIndex None ''t2'' \<lparr>request_url = ''/'', request_client = Some (''::1'', 5001)\<rparr>,
            WsConnect 0 ''t1'', WsResume 0 Resume,
            WsResume 0 (SessionCreated
              \<lparr>websocket = Some 0, is_active_event = True, last_interaction_timestamp = 5,
               session_token = []\<rparr>),
            WsConnect 1 ''t2'', WsResume 1 Resume,
            WsResume 1 (SessionCreated
              \<lparr>websocket = Some 1, is_active_event = True, last_interaction_timestamp = 6,
               session_token = []\<rparr>)] init_system)"
  have r: "run [HttpIndex None ''t1'' \<lparr>request_url = ''/'', request_client = Some (''::1'', 5000)\<rparr>,
            HttpIndex None ''t2'' \<lparr>request_url = ''/'', request_client = Some (''::1'', 5001)\<rparr>,
            WsConnect 0 ''t1'', WsResume 0 Resume,
            WsResume 0 (SessionCreated
              \<lparr>websocket = Some 0, is_active_event = True, last_interaction_timestamp = 5,
               session_token = []\<rparr>),
            WsConnect 1 ''t2'', WsResume 1 Resume,
            WsResume 1 (SessionCreated
              \<lparr>websocket = Some 1, is_active_event = True, last_interaction_timestamp = 6,
               session_token = []\<rparr>)] init_system = Some s"
    unfolding s_def by (simp add: run_defs)
  have a: "active_session_tokens (the_server s) = [(''t1'', 0), (''t2'', 1)]"
    unfolding s_def by (simp add: run_defs)
  have out: "lifespan_shutdown (the_server s) (\<lambda>sess. if sess = 0 then Some SystemExit else None)
             (Some HookReturns)
           = ([LogClosingSessions 2, SessionCloseAwaited 0], Some SystemExit)"
    by (simp add: lifespan_shutdown_def a stops_loop_def)
  have hook: "call_on_app_close (Some HookReturns)
           = ([LogDebug ''Calling `on_app_close`'', CallOnAppClose], None)"
    by (simp add: call_on_app_close_def)
  have neg: "\<not> (\<forall>srv close_result h.
        snd (lifespan_shutdown srv close_result (Some h)) = snd (call_on_app_close (Some h))
        \<and> CallOnAppClose \<in> set (fst (lifespan_shutdown srv close_result (Some h))))"
  proof
    assume "\<forall>srv close_result h.
        snd (lifespan_shutdown srv close_result (Some h)) = snd (call_on_app_close (Some h))
        \<and> CallOnAppClose \<in> set (fst (lifespan_shutdown srv close_result (Some h)))"
    then have "snd (lifespan_shutdown (the_server s)
          (\<lambda>sess. if sess = 0 then Some SystemExit else None) (Some HookReturns))
        = snd (call_on_app_close (Some HookReturns))"
      by blast
    then show False by (simp add: out hook)
  qed
  show ?thesis
    using neg r a out hook by simp
qed

end
